theory Spec2Isabelle
  imports Main
begin

section \<open>Data model of \<^verbatim>\<open>backend/session/session.c\<close>\<close>

text \<open>
  The file manages a session (privileged access to device nodes through an exchangeable
  backend), a registry of the devices opened through it, a udev hotplug monitor and the
  discovery of the primary GPU.  Everything the file calls but does not define (the two
  backends, libudev, libdrm, the wayland event loop, \<^verbatim>\<open>malloc\<close>, \<^verbatim>\<open>fstat\<close>) is external: the
  value such a call returns is an argument of the model, and each call that acquires,
  releases or signals something is recorded, in program order, in a trace.
\<close>

type_synonym dev_t = nat
type_synonym listener = nat
type_synonym handle = nat

text \<open>
  \<^verbatim>\<open>struct device { int fd; dev_t dev; struct wl_signal signal; struct wl_list link; }\<close>.
  The link is the position of the entry in the list \<open>devices\<close> of the session; a
  \<^verbatim>\<open>wl_signal\<close> is the list of its listeners.
\<close>

record device =
  device_fd :: int
  device_dev :: dev_t
  device_signal :: "listener list"

text \<open>The table \<^verbatim>\<open>impls[]\<close> points to \<^verbatim>\<open>session_logind\<close> and \<^verbatim>\<open>session_direct\<close>.\<close>

datatype session_impl = Session_logind | Session_direct

text \<open>
  \<^verbatim>\<open>struct wlr_session\<close>, as far as this file reads or writes it.  A pointer field is
  \<open>None\<close> when it is \<^verbatim>\<open>NULL\<close>.  The head of \<open>devices\<close> is the first entry
  \<^verbatim>\<open>wl_list_for_each\<close> visits.
\<close>

record wlr_session =
  impl :: session_impl
  active :: bool
  session_signal :: "listener list"
  udev :: "handle option"
  mon :: "handle option"
  udev_event_source :: "handle option"
  devices :: "device list"

text \<open>A record received from the udev monitor (\<^verbatim>\<open>struct udev_device\<close> of a hotplug event).\<close>

record udev_device =
  action :: "string option"
  sysname :: string
  devnum :: dev_t

text \<open>
  The external calls a trace records.  A handle argument is the pointer passed (\<open>None\<close> for
  \<^verbatim>\<open>NULL\<close>); \<open>Wlr_log\<close> carries the format string; \<open>Impl_open\<close> the path and the value
  returned; \<open>Free_device\<close> whether \<^verbatim>\<open>free\<close> was given a block; \<open>Udev_monitor_enable\<close> stands for
  the two calls that add the \<^verbatim>\<open>drm\<close> filter and enable receiving; \<open>Wl_signal_emit\<close> the entry
  whose signal is emitted and the session passed as its argument (the listeners it calls
  are external and are taken not to touch the session during the call);
  \<open>Udev_device_unref\<close> releases a hotplug record, \<open>Udev_candidate_unref\<close> the device of an
  enumerated candidate.
\<close>

datatype log_importance = L_ERROR | L_DEBUG

datatype event =
    Wlr_log log_importance string
  | Impl_create session_impl
  | Impl_destroy session_impl
  | Impl_open string int
  | Impl_close int
  | Impl_change_vt nat
  | Free_device bool
  | Udev_new "handle option"
  | Udev_unref "handle option"
  | Udev_monitor_new "handle option"
  | Udev_monitor_enable "handle option"
  | Udev_monitor_unref "handle option"
  | Wl_event_loop_add_fd "handle option"
  | Wl_event_source_remove "handle option"
  | Wl_signal_emit device wlr_session
  | Udev_device_unref udev_device
  | Udev_candidate_unref handle
  | Udev_enumerate_unref
  | Drm_mode_get_resources int
  | Drm_mode_free_resources

text \<open>The state a call works on: the session and the trace of external calls so far.\<close>

record world =
  session :: wlr_session
  trace :: "event list"

definition emit :: "event \<Rightarrow> world \<Rightarrow> world" where
  "emit e w = w\<lparr>trace := trace w @ [e]\<rparr>"

text \<open>
  \<^verbatim>\<open>assert(0)\<close> ends the process; the model returns the world in which the assertion
  was reached.
\<close>

datatype fatal = Assert_failed world

section \<open>The device registry: open, find, close, signal_add\<close>

text \<open>
  What the environment answers inside one call of \<^verbatim>\<open>wlr_session_open_file\<close>:
  the value of \<^verbatim>\<open>session->impl->open\<close>, whether \<^verbatim>\<open>malloc\<close> returns a block, and
  \<^verbatim>\<open>st.st_rdev\<close> when \<^verbatim>\<open>fstat\<close> succeeds (\<open>None\<close> when it returns a negative value).
\<close>

record open_env =
  impl_open_ret :: int
  malloc_ok :: bool
  fstat_rdev :: "dev_t option"

definition wlr_session_open_file :: "open_env \<Rightarrow> string \<Rightarrow> world \<Rightarrow> int \<times> world" where
  "wlr_session_open_file env path w =
     (let fd0 = impl_open_ret env;
          w1 = emit (Impl_open path fd0) w
      in if fd0 < 0 then (fd0, w1)
         else if \<not> malloc_ok env then
           (fd0, emit (Free_device False) (emit (Wlr_log L_ERROR ''Allocation failed'') w1))
         else (case fstat_rdev env of
                 None \<Rightarrow>
                   (fd0, emit (Free_device True) (emit (Wlr_log L_ERROR ''Stat failed'') w1))
               | Some rdev \<Rightarrow>
                   (fd0, w1\<lparr>session := (session w1)\<lparr>devices :=
                      \<lparr>device_fd = fd0, device_dev = rdev, device_signal = []\<rparr>
                        # devices (session w1)\<rparr>\<rparr>)))"

text \<open>The loop of \<^verbatim>\<open>find_device\<close> over the list: the first entry with the descriptor.\<close>

fun lookup_fd :: "device list \<Rightarrow> int \<Rightarrow> device option" where
  "lookup_fd [] fd0 = None"
| "lookup_fd (d # ds) fd0 = (if device_fd d = fd0 then Some d else lookup_fd ds fd0)"

definition find_device :: "world \<Rightarrow> int \<Rightarrow> fatal + device" where
  "find_device w fd0 =
     (case lookup_fd (devices (session w)) fd0 of
        Some d \<Rightarrow> Inr d
      | None \<Rightarrow>
          Inl (Assert_failed
                 (emit (Wlr_log L_ERROR ''Tried to use fd %d not opened by session'') w)))"

text \<open>\<^verbatim>\<open>wl_list_remove(&dev->link)\<close> for the entry \<^verbatim>\<open>find_device\<close> returned.\<close>

fun unlink_fd :: "device list \<Rightarrow> int \<Rightarrow> device list" where
  "unlink_fd [] fd0 = []"
| "unlink_fd (d # ds) fd0 = (if device_fd d = fd0 then ds else d # unlink_fd ds fd0)"

definition wlr_session_close_file :: "int \<Rightarrow> world \<Rightarrow> fatal + world" where
  "wlr_session_close_file fd0 w =
     (case find_device w fd0 of
        Inl a \<Rightarrow> Inl a
      | Inr d \<Rightarrow>
          (let w1 = emit (Impl_close fd0) w;
               w2 = w1\<lparr>session := (session w1)\<lparr>devices := unlink_fd (devices (session w1)) fd0\<rparr>\<rparr>
           in Inr (emit (Free_device True) w2)))"

text \<open>\<^verbatim>\<open>wl_signal_add(&dev->signal, listener)\<close> for the entry \<^verbatim>\<open>find_device\<close> returned:
  the listener goes to the end of the signal's list.\<close>

fun add_listener :: "device list \<Rightarrow> int \<Rightarrow> listener \<Rightarrow> device list" where
  "add_listener [] fd0 l = []"
| "add_listener (d # ds) fd0 l =
     (if device_fd d = fd0 then d\<lparr>device_signal := device_signal d @ [l]\<rparr> # ds
      else d # add_listener ds fd0 l)"

definition wlr_session_signal_add :: "int \<Rightarrow> listener \<Rightarrow> world \<Rightarrow> fatal + world" where
  "wlr_session_signal_add fd0 l w =
     (case find_device w fd0 of
        Inl a \<Rightarrow> Inl a
      | Inr d \<Rightarrow>
          Inr (w\<lparr>session := (session w)\<lparr>devices := add_listener (devices (session w)) fd0 l\<rparr>\<rparr>))"

section \<open>Session creation and destruction\<close>

text \<open>
  The table \<^verbatim>\<open>impls[]\<close>: \<^verbatim>\<open>&session_logind\<close> only under \<^verbatim>\<open>HAS_SYSTEMD\<close>, then
  \<^verbatim>\<open>&session_direct\<close>, then the terminating \<^verbatim>\<open>NULL\<close>.
\<close>

definition impls :: "bool \<Rightarrow> session_impl list" where
  "impls has_systemd = (if has_systemd then [Session_logind] else []) @ [Session_direct]"

text \<open>
  What the environment answers inside one call of \<^verbatim>\<open>wlr_session_create\<close>: the session each
  backend's \<^verbatim>\<open>create\<close> returns (\<open>None\<close> for \<^verbatim>\<open>NULL\<close>), and the results of \<^verbatim>\<open>udev_new\<close>,
  \<^verbatim>\<open>udev_monitor_new_from_netlink\<close> and \<^verbatim>\<open>wl_event_loop_add_fd\<close>.
\<close>

record create_env =
  impl_create :: "session_impl \<Rightarrow> wlr_session option"
  udev_new_ret :: "handle option"
  udev_monitor_new_ret :: "handle option"
  wl_event_loop_add_fd_ret :: "handle option"

text \<open>
  \<^verbatim>\<open>wlr_session_create\<close> returns \<^verbatim>\<open>NULL\<close> on every failure; the model names the failure
  after the message logged before it.
\<close>

datatype create_error =
    NoBackendAvailable
  | ContextInitFailed
  | MonitorInitFailed
  | EventSourceInitFailed

text \<open>\<^verbatim>\<open>for (iter = impls; !session && *iter; ++iter) session = (*iter)->create(disp);\<close>\<close>

fun probe_impls ::
  "(session_impl \<Rightarrow> wlr_session option) \<Rightarrow> session_impl list \<Rightarrow> event list
     \<Rightarrow> wlr_session option \<times> event list" where
  "probe_impls cr [] t = (None, t)"
| "probe_impls cr (i # rest) t =
     (case cr i of
        Some s \<Rightarrow> (Some s, t @ [Impl_create i])
      | None \<Rightarrow> probe_impls cr rest (t @ [Impl_create i]))"

definition wlr_session_destroy :: "wlr_session option \<Rightarrow> event list \<Rightarrow> event list" where
  "wlr_session_destroy so t =
     (case so of
        None \<Rightarrow> t
      | Some s \<Rightarrow>
          t @ [Wl_event_source_remove (udev_event_source s),
               Udev_monitor_unref (mon s),
               Udev_unref (udev s),
               Impl_destroy (impl s)])"

definition wlr_session_create ::
  "bool \<Rightarrow> create_env \<Rightarrow> event list \<Rightarrow> (create_error + wlr_session) \<times> event list" where
  "wlr_session_create has_systemd env t0 =
     (case probe_impls (impl_create env) (impls has_systemd) t0 of
        (None, t1) \<Rightarrow>
          (Inl NoBackendAvailable, t1 @ [Wlr_log L_ERROR ''Failed to load session backend''])
      | (Some s0, t1) \<Rightarrow>
          (let s1 = s0\<lparr>active := True, session_signal := [], devices := [],
                       udev := udev_new_ret env\<rparr>;
               t2 = t1 @ [Udev_new (udev s1)]
           in if udev s1 = None then
                (Inl ContextInitFailed,
                 wlr_session_destroy (Some s1)
                   (t2 @ [Wlr_log L_ERROR ''Failed to create udev context'']))
              else
                (let s2 = s1\<lparr>mon := udev_monitor_new_ret env\<rparr>;
                     t3 = t2 @ [Udev_monitor_new (mon s2)]
                 in if mon s2 = None then
                      (Inl MonitorInitFailed,
                       wlr_session_destroy (Some s2)
                         (t3 @ [Wlr_log L_ERROR ''Failed to create udev monitor'',
                                Udev_unref (udev s2)]))
                    else
                      (let s3 = s2\<lparr>udev_event_source := wl_event_loop_add_fd_ret env\<rparr>;
                           t4 = t3 @ [Udev_monitor_enable (mon s3),
                                      Wl_event_loop_add_fd (udev_event_source s3)]
                       in if udev_event_source s3 = None then
                            (Inl EventSourceInitFailed,
                             wlr_session_destroy (Some s3)
                               (t4 @ [Wlr_log L_ERROR ''Failed to create udev event source'',
                                      Udev_monitor_unref (mon s3),
                                      Udev_unref (udev s3)]))
                          else (Inr s3, t4)))))"

text \<open>\<^verbatim>\<open>wlr_session_change_vt\<close>: \<open>ret\<close> is what \<^verbatim>\<open>session->impl->change_vt\<close> answers.\<close>

definition wlr_session_change_vt :: "bool \<Rightarrow> nat \<Rightarrow> world option \<Rightarrow> bool \<times> world option" where
  "wlr_session_change_vt ret vt wo =
     (case wo of
        None \<Rightarrow> (False, None)
      | Some w \<Rightarrow> (ret, Some (emit (Impl_change_vt vt) w)))"

section \<open>Hotplug dispatch\<close>

text \<open>The loop of \<^verbatim>\<open>udev_event\<close> over the registry: emit on the first entry whose device
  number is \<open>n\<close>, then \<^verbatim>\<open>break\<close>.\<close>

fun emit_first :: "device list \<Rightarrow> dev_t \<Rightarrow> world \<Rightarrow> world" where
  "emit_first [] n w = w"
| "emit_first (d # ds) n w =
     (if device_dev d = n then emit (Wl_signal_emit d (session w)) w else emit_first ds n w)"

text \<open>\<open>received\<close> is what \<^verbatim>\<open>udev_monitor_receive_device\<close> returns.\<close>

definition udev_event :: "udev_device option \<Rightarrow> world \<Rightarrow> int \<times> world" where
  "udev_event received w =
     (case received of
        None \<Rightarrow> (1, w)
      | Some r \<Rightarrow>
          (let w1 = emit (Wlr_log L_DEBUG ''udev event for %s (%s)'') w
           in if action r \<noteq> Some ''change'' then (1, emit (Udev_device_unref r) w1)
              else (1, emit (Udev_device_unref r)
                         (emit_first (devices (session w1)) (devnum r) w1))))"

section \<open>GPU discovery\<close>

text \<open>\<^verbatim>\<open>drmModeRes\<close>, as far as \<^verbatim>\<open>device_is_kms\<close> reads it.\<close>

record drmModeRes =
  count_crtcs :: int
  count_connectors :: int
  count_encoders :: int

text \<open>
  \<open>res\<close> is what \<^verbatim>\<open>drmModeGetResources\<close> answers for the descriptor.  The result is the
  returned flag, the value left in \<^verbatim>\<open>*fd_out\<close>, and the world.
\<close>

definition device_is_kms ::
  "open_env \<Rightarrow> drmModeRes option \<Rightarrow> string option \<Rightarrow> int \<Rightarrow> world
     \<Rightarrow> fatal + (bool \<times> int \<times> world)" where
  "device_is_kms env res path fd_out w =
     (case path of
        None \<Rightarrow> Inr (False, fd_out, w)
      | Some p \<Rightarrow>
          (case wlr_session_open_file env p w of
             (fd0, w1) \<Rightarrow>
               if fd0 < 0 then Inr (False, fd_out, w1)
               else
                 (let w2 = emit (Drm_mode_get_resources fd0) w1
                  in case res of
                       None \<Rightarrow>
                         (case wlr_session_close_file fd0 w2 of
                            Inl a \<Rightarrow> Inl a
                          | Inr w3 \<Rightarrow> Inr (False, fd_out, w3))
                     | Some r \<Rightarrow>
                         if count_crtcs r \<le> 0 \<or> count_connectors r \<le> 0
                            \<or> count_encoders r \<le> 0
                         then
                           (case wlr_session_close_file fd0 (emit Drm_mode_free_resources w2) of
                              Inl a \<Rightarrow> Inl a
                            | Inr w3 \<Rightarrow> Inr (False, fd_out, w3))
                         else
                           (case (if 0 \<le> fd_out then wlr_session_close_file fd_out w2
                                  else Inr w2) of
                              Inl a \<Rightarrow> Inl a
                            | Inr w3 \<Rightarrow> Inr (True, fd0, emit Drm_mode_free_resources w3)))))"

text \<open>
  One entry of the udev enumeration with everything the environment answers about it:
  the device \<^verbatim>\<open>udev_device_new_from_syspath\<close> returns, whether it has a PCI parent, the
  parent's \<^verbatim>\<open>boot_vga\<close> attribute, its device node, and the answers to the probe.
\<close>

record candidate =
  syspath :: string
  udev_dev :: "handle option"
  pci_parent :: bool
  boot_vga :: "string option"
  devnode :: "string option"
  open_answers :: open_env
  resources :: "drmModeRes option"

definition is_boot_vga :: "candidate \<Rightarrow> bool" where
  "is_boot_vga c = (pci_parent c \<and> boot_vga c = Some ''1'')"

text \<open>The body of \<^verbatim>\<open>udev_list_entry_foreach\<close>; \<open>fd0\<close> is the local \<^verbatim>\<open>fd\<close>.\<close>

fun find_gpu_loop :: "candidate list \<Rightarrow> int \<Rightarrow> world \<Rightarrow> fatal + (int \<times> world)" where
  "find_gpu_loop [] fd0 w = Inr (fd0, w)"
| "find_gpu_loop (c # cs) fd0 w =
     (case udev_dev c of
        None \<Rightarrow> find_gpu_loop cs fd0 w
      | Some d \<Rightarrow>
          if \<not> is_boot_vga c \<and> 0 \<le> fd0 then
            find_gpu_loop cs fd0 (emit (Udev_candidate_unref d) w)
          else
            (case device_is_kms (open_answers c) (resources c) (devnode c) fd0 w of
               Inl a \<Rightarrow> Inl a
             | Inr (ok, fd1, w1) \<Rightarrow>
                 if \<not> ok then find_gpu_loop cs fd1 (emit (Udev_candidate_unref d) w1)
                 else if is_boot_vga c then Inr (fd1, emit (Udev_candidate_unref d) w1)
                 else find_gpu_loop cs fd1 (emit (Udev_candidate_unref d) w1)))"

text \<open>\<open>en\<close> is the enumeration: \<open>None\<close> when \<^verbatim>\<open>udev_enumerate_new\<close> returns \<^verbatim>\<open>NULL\<close>.\<close>

definition wlr_session_find_gpu :: "candidate list option \<Rightarrow> world \<Rightarrow> fatal + (int \<times> world)" where
  "wlr_session_find_gpu en w =
     (case en of
        None \<Rightarrow> Inr (- 1, emit (Wlr_log L_ERROR ''Failed to create udev enumeration'') w)
      | Some cs \<Rightarrow>
          (case find_gpu_loop cs (- 1) w of
             Inl a \<Rightarrow> Inl a
           | Inr (fd0, w1) \<Rightarrow> Inr (fd0, emit Udev_enumerate_unref w1)))"

section \<open>Sequences of registry calls\<close>

datatype call = Open_file string open_env | Close_file int

text \<open>Runs the calls in order; the result lists what each \<^verbatim>\<open>wlr_session_open_file\<close> returned.\<close>

fun run_calls :: "call list \<Rightarrow> world \<Rightarrow> fatal + (int list \<times> world)" where
  "run_calls [] w = Inr ([], w)"
| "run_calls (Open_file p env # cs) w =
     (case wlr_session_open_file env p w of
        (r, w1) \<Rightarrow>
          (case run_calls cs w1 of
             Inl a \<Rightarrow> Inl a
           | Inr (rs, w2) \<Rightarrow> Inr (r # rs, w2)))"
| "run_calls (Close_file f # cs) w =
     (case wlr_session_close_file f w of
        Inl a \<Rightarrow> Inl a
      | Inr w1 \<Rightarrow> run_calls cs w1)"

section \<open>Notions used in the statements\<close>

subsection \<open>The registry\<close>

text \<open>
  A call of \<^verbatim>\<open>wlr_session_open_file\<close> registers its descriptor when the backend's open,
  the allocation and \<^verbatim>\<open>fstat\<close> all succeed.
\<close>

definition registers :: "open_env \<Rightarrow> bool" where
  "registers env = (0 \<le> impl_open_ret env \<and> malloc_ok env \<and> fstat_rdev env \<noteq> None)"

text \<open>The descriptors of the registry.\<close>

definition registered_fds :: "world \<Rightarrow> int set" where
  "registered_fds w = device_fd ` set (devices (session w))"

text \<open>The world after \<^verbatim>\<open>wlr_session_close_file\<close> has closed a registered descriptor.\<close>

definition after_close :: "int \<Rightarrow> world \<Rightarrow> world" where
  "after_close g w =
     \<lparr>session = (session w)\<lparr>devices := unlink_fd (devices (session w)) g\<rparr>,
      trace = trace w @ [Impl_close g, Free_device True]\<rparr>"

text \<open>The device number the registry records for a descriptor.\<close>

definition dev_number :: "world \<Rightarrow> int \<Rightarrow> dev_t option" where
  "dev_number w f = map_option device_dev (lookup_fd (devices (session w)) f)"

subsection \<open>Opening and probing\<close>

text \<open>The world \<^verbatim>\<open>wlr_session_open_file\<close> leaves, and the events it adds.\<close>

definition after_open :: "open_env \<Rightarrow> string \<Rightarrow> world \<Rightarrow> world" where
  "after_open env p w = snd (wlr_session_open_file env p w)"

definition open_events :: "open_env \<Rightarrow> string \<Rightarrow> event list" where
  "open_events env p =
     Impl_open p (impl_open_ret env) #
       (if impl_open_ret env < 0 \<or> registers env then []
        else if \<not> malloc_ok env then [Wlr_log L_ERROR ''Allocation failed'', Free_device False]
        else [Wlr_log L_ERROR ''Stat failed'', Free_device True])"

text \<open>A call of \<^verbatim>\<open>wlr_session_open_file\<close> completes when the backend refuses or the
  descriptor is registered: the path through the label \<^verbatim>\<open>error\<close> is not taken.\<close>

definition open_completes :: "open_env \<Rightarrow> bool" where
  "open_completes env = (impl_open_ret env < 0 \<or> registers env)"

text \<open>The mode-setting resources were obtained and count at least one CRTC, one connector
  and one encoder.\<close>

definition usable :: "drmModeRes option \<Rightarrow> bool" where
  "usable res =
     (case res of
        None \<Rightarrow> False
      | Some r \<Rightarrow> 0 < count_crtcs r \<and> 0 < count_connectors r \<and> 0 < count_encoders r)"

text \<open>The probe of a device node succeeds: there is a node, opening it through the session
  returns a descriptor, and its resources are usable.\<close>

definition probe_ok :: "open_env \<Rightarrow> drmModeRes option \<Rightarrow> string option \<Rightarrow> bool" where
  "probe_ok env res path = (path \<noteq> None \<and> 0 \<le> impl_open_ret env \<and> usable res)"

text \<open>The world of \<^verbatim>\<open>device_is_kms\<close> after the open and the resource query, before it
  closes anything (on the path through \<^verbatim>\<open>out_res\<close> the resources are already freed).\<close>

definition queried :: "open_env \<Rightarrow> drmModeRes option \<Rightarrow> string \<Rightarrow> world \<Rightarrow> world" where
  "queried env res p w =
     (let w2 = emit (Drm_mode_get_resources (impl_open_ret env)) (after_open env p w)
      in if res = None \<or> usable res then w2 else emit Drm_mode_free_resources w2)"

subsection \<open>The choice of GPU discovery, in the words of the specification\<close>

text \<open>The descriptor the probe of a candidate yields, and the candidates discovery can
  accept: those that resolve to a device and pass the probe.\<close>

definition candidate_fd :: "candidate \<Rightarrow> int" where
  "candidate_fd c = impl_open_ret (open_answers c)"

definition kms_capable :: "candidate \<Rightarrow> bool" where
  "kms_capable c = (udev_dev c \<noteq> None \<and> probe_ok (open_answers c) (resources c) (devnode c))"

text \<open>The descriptor of the first KMS-capable boot VGA candidate if there is one, else of
  the first KMS-capable candidate, else \<open>-1\<close>.\<close>

definition gpu_choice :: "candidate list \<Rightarrow> int" where
  "gpu_choice cs =
     (case find (\<lambda>c. is_boot_vga c \<and> kms_capable c) cs of
        Some c \<Rightarrow> candidate_fd c
      | None \<Rightarrow> (case find kms_capable cs of Some c \<Rightarrow> candidate_fd c | None \<Rightarrow> - 1))"

text \<open>The same choice in the middle of the enumeration, when \<open>fd0\<close> is the descriptor
  accepted so far (negative when there is none).\<close>

definition choice_from :: "int \<Rightarrow> candidate list \<Rightarrow> int" where
  "choice_from fd0 cs =
     (case find (\<lambda>c. is_boot_vga c \<and> kms_capable c) cs of
        Some c \<Rightarrow> candidate_fd c
      | None \<Rightarrow>
          if 0 \<le> fd0 then fd0
          else (case find kms_capable cs of Some c \<Rightarrow> candidate_fd c | None \<Rightarrow> fd0))"

text \<open>The world after candidates were skipped: the device of each is released and nothing
  else happens.\<close>

fun released :: "candidate list \<Rightarrow> world \<Rightarrow> world" where
  "released [] w = w"
| "released (c # cs) w =
     released cs (case udev_dev c of None \<Rightarrow> w | Some d \<Rightarrow> emit (Udev_candidate_unref d) w)"

subsection \<open>Counting in a sequence of calls\<close>

text \<open>The number of \<^verbatim>\<open>wlr_session_close_file\<close> calls of a sequence, and the sequences in
  which every \<^verbatim>\<open>wlr_session_open_file\<close> call completes.\<close>

fun closes :: "call list \<Rightarrow> nat" where
  "closes [] = 0"
| "closes (Open_file p env # cs) = closes cs"
| "closes (Close_file f # cs) = Suc (closes cs)"

fun opens_complete :: "call list \<Rightarrow> bool" where
  "opens_complete [] = True"
| "opens_complete (Open_file p env # cs) = (open_completes env \<and> opens_complete cs)"
| "opens_complete (Close_file f # cs) = opens_complete cs"

subsection \<open>Traces\<close>

text \<open>The backends whose \<^verbatim>\<open>create\<close> a trace calls, in order.\<close>

definition probed :: "event list \<Rightarrow> session_impl list" where
  "probed t = concat (map (\<lambda>e. case e of Impl_create i \<Rightarrow> [i] | _ \<Rightarrow> []) t)"

text \<open>The message \<^verbatim>\<open>find_device\<close> logs before its assertion.\<close>

definition not_opened_msg :: event where
  "not_opened_msg = Wlr_log L_ERROR ''Tried to use fd %d not opened by session''"

text \<open>The message of \<^verbatim>\<open>wlr_session_find_gpu\<close> when the enumeration cannot be created.\<close>

definition enumeration_failed_msg :: event where
  "enumeration_failed_msg = Wlr_log L_ERROR ''Failed to create udev enumeration''"

text \<open>The debug message of \<^verbatim>\<open>udev_event\<close>.\<close>

definition udev_debug_msg :: event where
  "udev_debug_msg = Wlr_log L_DEBUG ''udev event for %s (%s)''"

text \<open>The sequences in which the backend never returns a descriptor that the registry
  still holds (an open descriptor is not handed out again).\<close>

fun fresh_opens :: "call list \<Rightarrow> world \<Rightarrow> bool" where
  "fresh_opens [] w = True"
| "fresh_opens (Open_file p env # cs) w =
     (impl_open_ret env \<notin> registered_fds w \<and> fresh_opens cs (after_open env p w))"
| "fresh_opens (Close_file f # cs) w =
     (case wlr_session_close_file f w of Inl a \<Rightarrow> True | Inr w1 \<Rightarrow> fresh_opens cs w1)"

section \<open>Concrete values\<close>

text \<open>A session as a backend returns it (zero-initialised but for \<open>impl\<close>).\<close>

definition direct_session :: wlr_session where
  "direct_session =
     \<lparr>impl = Session_direct, active = False, session_signal = [], udev = None, mon = None,
      udev_event_source = None, devices = []\<rparr>"

text \<open>\<^verbatim>\<open>/dev/dri/card0\<close> and \<^verbatim>\<open>/dev/dri/card1\<close> (character devices 226:0 and 226:1).\<close>

definition card0 :: device where
  "card0 = \<lparr>device_fd = 5, device_dev = 57856, device_signal = []\<rparr>"

definition card1 :: device where
  "card1 = \<lparr>device_fd = 6, device_dev = 57857, device_signal = [3]\<rparr>"

definition two_cards :: world where
  "two_cards =
     \<lparr>session = direct_session\<lparr>active := True, udev := Some 1, mon := Some 2,
                  udev_event_source := Some 3, devices := [card1, card0]\<rparr>,
      trace = []\<rparr>"

text \<open>Two hotplug records for \<^verbatim>\<open>card0\<close>.\<close>

definition change_card0 :: udev_device where
  "change_card0 = \<lparr>action = Some ''change'', sysname = ''card0'', devnum = 57856\<rparr>"

definition add_card0 :: udev_device where
  "add_card0 = \<lparr>action = Some ''add'', sysname = ''card0'', devnum = 57856\<rparr>"

text \<open>What a backend's \<^verbatim>\<open>create\<close> and the libraries answer when everything works and
  only the direct backend is available, and the session \<^verbatim>\<open>wlr_session_create\<close> then returns.\<close>

definition create_ok :: create_env where
  "create_ok =
     \<lparr>impl_create = (\<lambda>i. if i = Session_direct then Some direct_session else None),
      udev_new_ret = Some 1, udev_monitor_new_ret = Some 2, wl_event_loop_add_fd_ret = Some 3\<rparr>"

definition created_session :: wlr_session where
  "created_session =
     direct_session\<lparr>active := True, udev := Some 1, mon := Some 2, udev_event_source := Some 3\<rparr>"

definition fresh :: world where
  "fresh = \<lparr>session = created_session, trace = []\<rparr>"

text \<open>Three cards with mode-setting resources; only the second is the boot VGA device.\<close>

definition kms_res :: drmModeRes where
  "kms_res = \<lparr>count_crtcs = 3, count_connectors = 4, count_encoders = 4\<rparr>"

definition gpu :: "string \<Rightarrow> nat \<Rightarrow> int \<Rightarrow> bool \<Rightarrow> drmModeRes option \<Rightarrow> candidate" where
  "gpu name n f boot res =
     \<lparr>syspath = ''/sys/class/drm/'' @ name, udev_dev = Some n, pci_parent = True,
      boot_vga = Some (if boot then ''1'' else ''0''), devnode = Some (''/dev/dri/'' @ name),
      open_answers = \<lparr>impl_open_ret = f, malloc_ok = True, fstat_rdev = Some (57856 + n)\<rparr>,
      resources = res\<rparr>"

definition three_gpus :: "candidate list" where
  "three_gpus = [gpu ''card0'' 0 5 False (Some kms_res), gpu ''card1'' 1 6 True (Some kms_res),
                 gpu ''card2'' 2 7 False (Some kms_res)]"

text \<open>Environments of \<^verbatim>\<open>wlr_session_create\<close> in which no backend can be created, the
  monitor cannot be created, or the event source cannot be registered.\<close>

definition create_none :: create_env where
  "create_none = create_ok\<lparr>impl_create := (\<lambda>i. None)\<rparr>"

definition create_no_monitor :: create_env where
  "create_no_monitor = create_ok\<lparr>udev_monitor_new_ret := None\<rparr>"

definition create_no_event_source :: create_env where
  "create_no_event_source = create_ok\<lparr>wl_event_loop_add_fd_ret := None\<rparr>"

text \<open>Answers to \<^verbatim>\<open>wlr_session_open_file\<close>: a successful open of \<^verbatim>\<open>card2\<close>; the backend
  returns descriptor 5 and then \<^verbatim>\<open>fstat\<close> fails; the backend returns descriptor 5 and
  \<^verbatim>\<open>malloc\<close> returns \<^verbatim>\<open>NULL\<close>.\<close>

definition open_card2 :: open_env where
  "open_card2 = \<lparr>impl_open_ret = 7, malloc_ok = True, fstat_rdev = Some 57858\<rparr>"

definition stat_fails :: open_env where
  "stat_fails = \<lparr>impl_open_ret = 5, malloc_ok = True, fstat_rdev = None\<rparr>"

definition alloc_fails :: open_env where
  "alloc_fails = \<lparr>impl_open_ret = 5, malloc_ok = False, fstat_rdev = Some 57856\<rparr>"

text \<open>Two more enumerations, and a boot VGA card whose resource query fails, with the world
  its probe leaves when cards 5 and 6 are registered.\<close>

definition two_gpus :: "candidate list" where
  "two_gpus = [gpu ''card2'' 2 7 False (Some kms_res), gpu ''card3'' 3 8 True (Some kms_res)]"

definition boot_without_resources :: candidate where
  "boot_without_resources = gpu ''card2'' 2 7 True None"

definition after_failed_probe :: world where
  "after_failed_probe =
     two_cards\<lparr>trace := [Impl_open ''/dev/dri/card2'' 7, Drm_mode_get_resources 7,
                          Impl_close 7, Free_device True]\<rparr>"

text \<open>A card that is not boot VGA and whose open takes the error path: the backend returns
  descriptor 5 and \<^verbatim>\<open>malloc\<close> returns \<^verbatim>\<open>NULL\<close>.\<close>

definition unregistered_card :: "drmModeRes option \<Rightarrow> candidate" where
  "unregistered_card res =
     \<lparr>syspath = ''/sys/class/drm/card0'', udev_dev = Some 0, pci_parent = True,
      boot_vga = Some ''0'', devnode = Some ''/dev/dri/card0'',
      open_answers = alloc_fails, resources = res\<rparr>"

section \<open>Basic facts\<close>

lemma session_emit [simp]: "session (emit e w) = session w"
  by (simp add: emit_def)

lemma trace_emit [simp]: "trace (emit e w) = trace w @ [e]"
  by (simp add: emit_def)

lemma lookup_fd_None: "lookup_fd ds f = None \<longleftrightarrow> f \<notin> device_fd ` set ds"
  by (induction ds) auto

lemma lookup_fd_Some: "lookup_fd ds f = Some d \<Longrightarrow> d \<in> set ds \<and> device_fd d = f"
  by (induction ds) (auto split: if_splits)

text \<open>\<^verbatim>\<open>find_device\<close> returns the first entry with the descriptor.\<close>

lemma lookup_fd_first:
  "lookup_fd ds f = Some d \<longleftrightarrow>
     (\<exists>ds1 ds2. ds = ds1 @ d # ds2 \<and> device_fd d = f \<and> f \<notin> device_fd ` set ds1)"
proof (induction ds)
  case Nil
  then show ?case by simp
next
  case (Cons x xs)
  show ?case
  proof (cases "device_fd x = f")
    case True
    have "(\<exists>ds1 ds2. x # xs = ds1 @ d # ds2 \<and> device_fd d = f \<and> f \<notin> device_fd ` set ds1)
            \<longleftrightarrow> x = d"
    proof
      assume "\<exists>ds1 ds2. x # xs = ds1 @ d # ds2 \<and> device_fd d = f \<and> f \<notin> device_fd ` set ds1"
      then obtain ds1 ds2 where e: "x # xs = ds1 @ d # ds2" and n: "f \<notin> device_fd ` set ds1"
        by blast
      show "x = d"
      proof (cases ds1)
        case Nil
        with e show ?thesis by simp
      next
        case (Cons y ys)
        with e have "y = x" by simp
        with Cons n True show ?thesis by auto
      qed
    next
      assume "x = d"
      with True have "x # xs = [] @ d # xs \<and> device_fd d = f \<and> f \<notin> device_fd ` set []"
        by simp
      then show "\<exists>ds1 ds2. x # xs = ds1 @ d # ds2 \<and> device_fd d = f \<and> f \<notin> device_fd ` set ds1"
        by blast
    qed
    with True show ?thesis by auto
  next
    case False
    have "(\<exists>ds1 ds2. x # xs = ds1 @ d # ds2 \<and> device_fd d = f \<and> f \<notin> device_fd ` set ds1)
            \<longleftrightarrow> (\<exists>ds1 ds2. xs = ds1 @ d # ds2 \<and> device_fd d = f \<and> f \<notin> device_fd ` set ds1)"
      (is "?L \<longleftrightarrow> ?R")
    proof
      assume ?L
      then obtain ds1 ds2 where e: "x # xs = ds1 @ d # ds2" and df: "device_fd d = f"
        and n: "f \<notin> device_fd ` set ds1" by blast
      show ?R
      proof (cases ds1)
        case Nil
        with e df False show ?thesis by simp
      next
        case (Cons y ys)
        with e n df have "xs = ys @ d # ds2 \<and> device_fd d = f \<and> f \<notin> device_fd ` set ys"
          by simp
        then show ?thesis by blast
      qed
    next
      assume ?R
      then obtain ds1 ds2 where e: "xs = ds1 @ d # ds2" and df: "device_fd d = f"
        and n: "f \<notin> device_fd ` set ds1" by blast
      with False have "x # xs = (x # ds1) @ d # ds2 \<and> device_fd d = f
          \<and> f \<notin> device_fd ` set (x # ds1)" by simp
      then show ?L by blast
    qed
    with False Cons.IH show ?thesis by simp
  qed
qed

lemma open_file_fst [simp]: "fst (wlr_session_open_file env p w) = impl_open_ret env"
  by (simp add: wlr_session_open_file_def Let_def split: option.splits)

lemma open_file_devices:
  "devices (session (snd (wlr_session_open_file env p w))) =
     (case fstat_rdev env of
        Some r \<Rightarrow> if 0 \<le> impl_open_ret env \<and> malloc_ok env
                  then \<lparr>device_fd = impl_open_ret env, device_dev = r, device_signal = []\<rparr>
                         # devices (session w)
                  else devices (session w)
      | None \<Rightarrow> devices (session w))"
  by (simp add: wlr_session_open_file_def Let_def split: option.splits)

section \<open>The error path of \<^verbatim>\<open>wlr_session_open_file\<close>\<close>

text \<open>
  C1.  The backend's open succeeds with descriptor 5 and then \<^verbatim>\<open>fstat\<close> fails, or the
  allocation fails: \<^verbatim>\<open>wlr_session_open_file\<close> logs the error, frees the block, leaves the
  registry as it was and does not call the backend's close, but the value it returns is
  the descriptor 5 itself, the value it returns on success, and not a negative result.
\<close>

theorem open_file_error_path_returns_descriptor:
  "wlr_session_open_file \<lparr>impl_open_ret = 5, malloc_ok = True, fstat_rdev = None\<rparr>
       ''/dev/dri/card0'' w
     = (5, w\<lparr>trace := trace w @ [Impl_open ''/dev/dri/card0'' 5,
                                  Wlr_log L_ERROR ''Stat failed'', Free_device True]\<rparr>)
   \<and> wlr_session_open_file \<lparr>impl_open_ret = 5, malloc_ok = False, fstat_rdev = Some 57856\<rparr>
       ''/dev/dri/card0'' w
     = (5, w\<lparr>trace := trace w @ [Impl_open ''/dev/dri/card0'' 5,
                                  Wlr_log L_ERROR ''Allocation failed'', Free_device False]\<rparr>)"
  by (simp add: wlr_session_open_file_def emit_def)

section \<open>The contract of \<^verbatim>\<open>find_device\<close>\<close>

text \<open>
  C7.  For a descriptor with no entry in the registry, \<^verbatim>\<open>find_device\<close>,
  \<^verbatim>\<open>wlr_session_close_file\<close> and \<^verbatim>\<open>wlr_session_signal_add\<close> reach the assertion after
  logging and nothing else: the session is unchanged, the backend's close is not called.
  For a descriptor with an entry, \<^verbatim>\<open>find_device\<close> returns the first entry that holds it,
  and both callers return without reaching the assertion.
\<close>

theorem find_device_contract:
  "(fd0 \<notin> registered_fds w \<longrightarrow>
      find_device w fd0 = Inl (Assert_failed (emit not_opened_msg w))
      \<and> wlr_session_close_file fd0 w = Inl (Assert_failed (emit not_opened_msg w))
      \<and> wlr_session_signal_add fd0 l w = Inl (Assert_failed (emit not_opened_msg w)))
   \<and> (fd0 \<in> registered_fds w \<longrightarrow>
      (\<exists>ds1 d ds2. devices (session w) = ds1 @ d # ds2 \<and> device_fd d = fd0
          \<and> fd0 \<notin> device_fd ` set ds1 \<and> find_device w fd0 = Inr d)
      \<and> (\<exists>w'. wlr_session_close_file fd0 w = Inr w')
      \<and> (\<exists>w'. wlr_session_signal_add fd0 l w = Inr w'))"
proof (intro conjI impI)
  assume "fd0 \<notin> registered_fds w"
  then have "lookup_fd (devices (session w)) fd0 = None"
    by (simp add: lookup_fd_None registered_fds_def)
  then show f: "find_device w fd0 = Inl (Assert_failed (emit not_opened_msg w))"
    by (simp add: find_device_def not_opened_msg_def)
  from f show "wlr_session_close_file fd0 w = Inl (Assert_failed (emit not_opened_msg w))"
    by (simp add: wlr_session_close_file_def)
  from f show "wlr_session_signal_add fd0 l w = Inl (Assert_failed (emit not_opened_msg w))"
    by (simp add: wlr_session_signal_add_def)
next
  assume "fd0 \<in> registered_fds w"
  then have "lookup_fd (devices (session w)) fd0 \<noteq> None"
    by (simp add: lookup_fd_None registered_fds_def)
  then obtain d where l: "lookup_fd (devices (session w)) fd0 = Some d"
    by blast
  then have f: "find_device w fd0 = Inr d"
    by (simp add: find_device_def)
  from l obtain ds1 ds2 where "devices (session w) = ds1 @ d # ds2" "device_fd d = fd0"
    "fd0 \<notin> device_fd ` set ds1"
    using lookup_fd_first [of "devices (session w)" fd0 d] by blast
  with f show "\<exists>ds1 d ds2. devices (session w) = ds1 @ d # ds2 \<and> device_fd d = fd0
          \<and> fd0 \<notin> device_fd ` set ds1 \<and> find_device w fd0 = Inr d"
    by blast
  from f show "\<exists>w'. wlr_session_close_file fd0 w = Inr w'"
    by (simp add: wlr_session_close_file_def Let_def)
  from f show "\<exists>w'. wlr_session_signal_add fd0 l w = Inr w'"
    by (simp add: wlr_session_signal_add_def)
qed

text \<open>With cards 5 and 6 registered: descriptor 7 reaches the assertion, descriptor 5 is
  found behind the entry of descriptor 6.\<close>

theorem find_device_contract_witness:
  "7 \<notin> registered_fds two_cards
   \<and> wlr_session_close_file 7 two_cards = Inl (Assert_failed (emit not_opened_msg two_cards))
   \<and> wlr_session_signal_add 7 4 two_cards = Inl (Assert_failed (emit not_opened_msg two_cards))
   \<and> 5 \<in> registered_fds two_cards
   \<and> find_device two_cards 5 = Inr card0
   \<and> (\<exists>w'. wlr_session_close_file 5 two_cards = Inr w')"
proof -
  have a: "7 \<notin> registered_fds two_cards"
    by (simp add: registered_fds_def two_cards_def card0_def card1_def)
  have b: "5 \<in> registered_fds two_cards"
    by (simp add: registered_fds_def two_cards_def card0_def card1_def)
  have c: "find_device two_cards 5 = Inr card0"
    by (simp add: find_device_def two_cards_def card0_def card1_def)
  from a b c find_device_contract [of 7 two_cards 4] find_device_contract [of 5 two_cards 4]
  show ?thesis by blast
qed

lemma find_device_eq:
  "find_device w g =
     (if g \<in> registered_fds w then Inr (the (lookup_fd (devices (session w)) g))
      else Inl (Assert_failed (emit not_opened_msg w)))"
proof (cases "lookup_fd (devices (session w)) g")
  case None
  moreover from None have "g \<notin> registered_fds w"
    by (simp add: registered_fds_def lookup_fd_None)
  ultimately show ?thesis
    by (simp add: find_device_def not_opened_msg_def)
next
  case (Some d)
  moreover from Some have "g \<in> registered_fds w"
    using lookup_fd_Some [of "devices (session w)" g d] by (auto simp: registered_fds_def)
  ultimately show ?thesis
    by (simp add: find_device_def)
qed

lemma close_file_eq:
  "wlr_session_close_file g w =
     (if g \<in> registered_fds w then Inr (after_close g w)
      else Inl (Assert_failed (emit not_opened_msg w)))"
  by (simp add: wlr_session_close_file_def find_device_eq after_close_def emit_def Let_def)

lemma session_after_close [simp]:
  "session (after_close g w) = (session w)\<lparr>devices := unlink_fd (devices (session w)) g\<rparr>"
  by (simp add: after_close_def)

lemma trace_after_close [simp]:
  "trace (after_close g w) = trace w @ [Impl_close g, Free_device True]"
  by (simp add: after_close_def)

lemma signal_add_eq:
  "wlr_session_signal_add g l w =
     (if g \<in> registered_fds w
      then Inr (w\<lparr>session := (session w)\<lparr>devices := add_listener (devices (session w)) g l\<rparr>\<rparr>)
      else Inl (Assert_failed (emit not_opened_msg w)))"
  by (simp add: wlr_session_signal_add_def find_device_eq)

section \<open>Hotplug dispatch: routing by device number\<close>

lemma emit_first_none: "n \<notin> device_dev ` set ds \<Longrightarrow> emit_first ds n w = w"
  by (induction ds) auto

lemma emit_first_match:
  "device_dev d = n \<Longrightarrow> n \<notin> device_dev ` set ds1 \<Longrightarrow>
     emit_first (ds1 @ d # ds2) n w = emit (Wl_signal_emit d (session w)) w"
  by (induction ds1) auto

lemma session_emit_first [simp]: "session (emit_first ds n w) = session w"
  by (induction ds) auto

text \<open>
  C5.  A record whose action is not exactly \<^verbatim>\<open>change\<close> (absent, \<^verbatim>\<open>add\<close>, \<^verbatim>\<open>remove\<close>) fires
  no signal.  A \<^verbatim>\<open>change\<close> record whose device number some entry records fires exactly
  one signal, that of the first such entry, with the session as its argument.  In every
  case the session and so every entry is as before, and the last thing the callback
  does is release the record; it returns 1.
\<close>

theorem hotplug_dispatch:
  "(action r \<noteq> Some ''change'' \<longrightarrow>
      udev_event (Some r) w = (1, w\<lparr>trace := trace w @ [udev_debug_msg, Udev_device_unref r]\<rparr>))
   \<and> (action r = Some ''change'' \<and> devices (session w) = ds1 @ d # ds2
        \<and> device_dev d = devnum r \<and> devnum r \<notin> device_dev ` set ds1 \<longrightarrow>
      udev_event (Some r) w =
        (1, w\<lparr>trace := trace w @ [udev_debug_msg, Wl_signal_emit d (session w),
                                   Udev_device_unref r]\<rparr>))
   \<and> (action r = Some ''change'' \<and> devnum r \<notin> device_dev ` set (devices (session w)) \<longrightarrow>
      udev_event (Some r) w = (1, w\<lparr>trace := trace w @ [udev_debug_msg, Udev_device_unref r]\<rparr>))"
proof (intro conjI impI)
  assume "action r \<noteq> Some ''change''"
  then show "udev_event (Some r) w
      = (1, w\<lparr>trace := trace w @ [udev_debug_msg, Udev_device_unref r]\<rparr>)"
    by (simp add: udev_event_def Let_def emit_def udev_debug_msg_def)
next
  assume a: "action r = Some ''change'' \<and> devices (session w) = ds1 @ d # ds2
        \<and> device_dev d = devnum r \<and> devnum r \<notin> device_dev ` set ds1"
  then have "emit_first (devices (session w)) (devnum r) (emit udev_debug_msg w)
      = emit (Wl_signal_emit d (session w)) (emit udev_debug_msg w)"
    using emit_first_match [of d "devnum r" ds1 ds2 "emit udev_debug_msg w"] by simp
  with a show "udev_event (Some r) w =
        (1, w\<lparr>trace := trace w @ [udev_debug_msg, Wl_signal_emit d (session w),
                                   Udev_device_unref r]\<rparr>)"
    by (simp add: udev_event_def Let_def udev_debug_msg_def emit_def)
next
  assume a: "action r = Some ''change'' \<and> devnum r \<notin> device_dev ` set (devices (session w))"
  then have "emit_first (devices (session w)) (devnum r) (emit udev_debug_msg w)
      = emit udev_debug_msg w"
    by (simp add: emit_first_none)
  with a show "udev_event (Some r) w
      = (1, w\<lparr>trace := trace w @ [udev_debug_msg, Udev_device_unref r]\<rparr>)"
    by (simp add: udev_event_def Let_def udev_debug_msg_def emit_def)
qed

text \<open>Cards 6 and 5 are registered; an \<^verbatim>\<open>add\<close> record for \<^verbatim>\<open>card0\<close> fires nothing, a
  \<^verbatim>\<open>change\<close> record for it fires the signal of descriptor 5 only.\<close>

theorem hotplug_dispatch_witness:
  "action add_card0 \<noteq> Some ''change''
   \<and> udev_event (Some add_card0) two_cards
       = (1, two_cards\<lparr>trace := [udev_debug_msg, Udev_device_unref add_card0]\<rparr>)
   \<and> action change_card0 = Some ''change''
   \<and> devices (session two_cards) = [card1] @ card0 # []
   \<and> device_dev card0 = devnum change_card0
   \<and> devnum change_card0 \<notin> device_dev ` set [card1]
   \<and> udev_event (Some change_card0) two_cards
       = (1, two_cards\<lparr>trace := [udev_debug_msg, Wl_signal_emit card0 (session two_cards),
                                  Udev_device_unref change_card0]\<rparr>)"
proof -
  have a: "action add_card0 \<noteq> Some ''change''"
    by (simp add: add_card0_def)
  have b: "action change_card0 = Some ''change'' \<and> devices (session two_cards) = [card1] @ card0 # []
        \<and> device_dev card0 = devnum change_card0 \<and> devnum change_card0 \<notin> device_dev ` set [card1]"
    by (simp add: change_card0_def two_cards_def card0_def card1_def)
  have t: "trace two_cards = []"
    by (simp add: two_cards_def)
  from a b t hotplug_dispatch [of add_card0 two_cards "[]" card0 "[]"]
    hotplug_dispatch [of change_card0 two_cards "[card1]" card0 "[]"]
  show ?thesis by simp
qed

section \<open>Backend selection\<close>

lemma probed_append [simp]: "probed (xs @ ys) = probed xs @ probed ys"
  by (simp add: probed_def)

lemma probed_Nil [simp]: "probed [] = []"
  by (simp add: probed_def)

lemma probed_Cons_create [simp]: "probed (Impl_create i # t) = i # probed t"
  by (simp add: probed_def)

lemma probed_other [simp]:
  "probed (Wlr_log a b # t) = probed t"
  "probed (Udev_new h # t) = probed t"
  "probed (Udev_unref h # t) = probed t"
  "probed (Udev_monitor_new h # t) = probed t"
  "probed (Udev_monitor_enable h # t) = probed t"
  "probed (Udev_monitor_unref h # t) = probed t"
  "probed (Wl_event_loop_add_fd h # t) = probed t"
  "probed (Wl_event_source_remove h # t) = probed t"
  "probed (Impl_destroy i # t) = probed t"
  by (simp_all add: probed_def)

lemma probe_impls_fst:
  "fst (probe_impls cr is t) =
     (case find (\<lambda>i. cr i \<noteq> None) is of None \<Rightarrow> None | Some i \<Rightarrow> cr i)"
  by (induction "is" arbitrary: t) (auto split: option.splits)

lemma probe_impls_snd:
  "snd (probe_impls cr is t) =
     t @ map Impl_create (takeWhile (\<lambda>i. cr i = None) is @ take 1 (dropWhile (\<lambda>i. cr i = None) is))"
  by (induction "is" arbitrary: t) (auto split: option.splits)

lemma probed_map_create [simp]: "probed (map Impl_create xs) = xs"
  by (induction xs) simp_all

lemma create_probed:
  "probed (snd (wlr_session_create hs env t0)) =
     probed t0 @ takeWhile (\<lambda>i. impl_create env i = None) (impls hs)
       @ take 1 (dropWhile (\<lambda>i. impl_create env i = None) (impls hs))"
proof -
  obtain so t1 where p: "probe_impls (impl_create env) (impls hs) t0 = (so, t1)"
    by (cases "probe_impls (impl_create env) (impls hs) t0")
  then have t1: "t1 = t0 @ map Impl_create (takeWhile (\<lambda>i. impl_create env i = None) (impls hs)
       @ take 1 (dropWhile (\<lambda>i. impl_create env i = None) (impls hs)))"
    using probe_impls_snd [of "impl_create env" "impls hs" t0] by simp
  have "probed (snd (wlr_session_create hs env t0)) = probed t1"
    using p by (cases so) (simp_all add: wlr_session_create_def wlr_session_destroy_def Let_def)
  with t1 show ?thesis by simp
qed

lemma create_no_backend:
  "fst (wlr_session_create hs env t0) = Inl NoBackendAvailable
     \<longleftrightarrow> (\<forall>i\<in>set (impls hs). impl_create env i = None)"
proof -
  obtain so t1 where p: "probe_impls (impl_create env) (impls hs) t0 = (so, t1)"
    by (cases "probe_impls (impl_create env) (impls hs) t0")
  then have so: "so = (case find (\<lambda>i. impl_create env i \<noteq> None) (impls hs) of
      None \<Rightarrow> None | Some i \<Rightarrow> impl_create env i)"
    using probe_impls_fst [of "impl_create env" "impls hs" t0] by simp
  have a: "fst (wlr_session_create hs env t0) = Inl NoBackendAvailable \<longleftrightarrow> so = None"
    using p by (cases so) (simp_all add: wlr_session_create_def Let_def)
  have b: "so = None \<longleftrightarrow> find (\<lambda>i. impl_create env i \<noteq> None) (impls hs) = None"
  proof (cases "find (\<lambda>i. impl_create env i \<noteq> None) (impls hs)")
    case None
    with so show ?thesis by simp
  next
    case (Some i)
    then have "impl_create env i \<noteq> None"
      by (auto simp: find_Some_iff)
    with so Some show ?thesis by simp
  qed
  from a b show ?thesis
    by (auto simp: find_None_iff)
qed

lemma create_selected:
  assumes "fst (wlr_session_create hs env t0) = Inr s"
  shows "\<exists>i s0. find (\<lambda>i. impl_create env i \<noteq> None) (impls hs) = Some i
           \<and> impl_create env i = Some s0
           \<and> s = s0\<lparr>active := True, session_signal := [], devices := [],
                    udev := udev_new_ret env, mon := udev_monitor_new_ret env,
                    udev_event_source := wl_event_loop_add_fd_ret env\<rparr>"
proof -
  obtain so t1 where p: "probe_impls (impl_create env) (impls hs) t0 = (so, t1)"
    by (cases "probe_impls (impl_create env) (impls hs) t0")
  then have so: "so = (case find (\<lambda>i. impl_create env i \<noteq> None) (impls hs) of
      None \<Rightarrow> None | Some i \<Rightarrow> impl_create env i)"
    using probe_impls_fst [of "impl_create env" "impls hs" t0] by simp
  from assms p obtain s0 where s0: "so = Some s0"
    by (cases so) (simp_all add: wlr_session_create_def)
  with so obtain i where i: "find (\<lambda>i. impl_create env i \<noteq> None) (impls hs) = Some i"
    "impl_create env i = Some s0"
    by (cases "find (\<lambda>i. impl_create env i \<noteq> None) (impls hs)") simp_all
  from assms p s0 have "s = s0\<lparr>active := True, session_signal := [], devices := [],
                    udev := udev_new_ret env, mon := udev_monitor_new_ret env,
                    udev_event_source := wl_event_loop_add_fd_ret env\<rparr>"
    by (simp add: wlr_session_create_def Let_def split: if_splits)
  with i show ?thesis by blast
qed

text \<open>No operation of the file assigns \<^verbatim>\<open>session->impl\<close>.\<close>

lemma impl_open_file [simp]:
  "impl (session (snd (wlr_session_open_file env p w))) = impl (session w)"
  by (simp add: wlr_session_open_file_def Let_def split: option.splits)

lemma impl_close_file:
  "wlr_session_close_file g w = Inr w' \<Longrightarrow> impl (session w') = impl (session w)"
  by (auto simp: close_file_eq split: if_splits)

lemma impl_signal_add:
  "wlr_session_signal_add g l w = Inr w' \<Longrightarrow> impl (session w') = impl (session w)"
  by (auto simp: signal_add_eq split: if_splits)

lemma session_udev_event [simp]: "session (snd (udev_event r w)) = session w"
  by (simp add: udev_event_def Let_def split: option.splits)

section \<open>The probe \<^verbatim>\<open>device_is_kms\<close>\<close>

lemma open_file_eq: "wlr_session_open_file env p w = (impl_open_ret env, after_open env p w)"
  by (simp add: after_open_def prod_eq_iff)

lemma devices_after_open:
  "devices (session (after_open env p w)) =
     (if registers env
      then \<lparr>device_fd = impl_open_ret env, device_dev = the (fstat_rdev env), device_signal = []\<rparr>
             # devices (session w)
      else devices (session w))"
  by (auto simp: after_open_def open_file_devices registers_def split: option.splits)

lemma session_after_open:
  "session (after_open env p w) = (session w)\<lparr>devices := devices (session (after_open env p w))\<rparr>"
  by (simp add: after_open_def wlr_session_open_file_def Let_def split: option.splits)

lemma registered_emit [simp]: "registered_fds (emit e w) = registered_fds w"
  by (simp add: registered_fds_def)

lemma registered_after_open:
  "registered_fds (after_open env p w) =
     (if registers env then insert (impl_open_ret env) (registered_fds w) else registered_fds w)"
  by (simp add: registered_fds_def devices_after_open)

lemma session_queried [simp]: "session (queried env res p w) = session (after_open env p w)"
  by (simp add: queried_def Let_def)

lemma registered_queried [simp]:
  "registered_fds (queried env res p w) = registered_fds (after_open env p w)"
  by (simp add: registered_fds_def)

text \<open>The branches of \<^verbatim>\<open>device_is_kms\<close>, one by one.\<close>

lemma device_is_kms_eq:
  "device_is_kms env res path fd_out w =
     (case path of
        None \<Rightarrow> Inr (False, fd_out, w)
      | Some p \<Rightarrow>
          if impl_open_ret env < 0 then Inr (False, fd_out, after_open env p w)
          else if \<not> usable res then
            (if impl_open_ret env \<in> registered_fds (after_open env p w)
             then Inr (False, fd_out, after_close (impl_open_ret env) (queried env res p w))
             else Inl (Assert_failed (emit not_opened_msg (queried env res p w))))
          else if fd_out < 0 then
            Inr (True, impl_open_ret env, emit Drm_mode_free_resources (queried env res p w))
          else if fd_out \<in> registered_fds (after_open env p w) then
            Inr (True, impl_open_ret env,
                 emit Drm_mode_free_resources (after_close fd_out (queried env res p w)))
          else Inl (Assert_failed (emit not_opened_msg (queried env res p w))))"
proof (cases path)
  case None
  then show ?thesis by (simp add: device_is_kms_def)
next
  case (Some p)
  show ?thesis
  proof (cases res)
    case None
    with Some show ?thesis
      by (simp add: device_is_kms_def open_file_eq close_file_eq usable_def queried_def Let_def)
  next
    case (Some r)
    with \<open>path = Some p\<close> show ?thesis
      by (simp add: device_is_kms_def open_file_eq close_file_eq usable_def queried_def Let_def
            not_le not_less)
  qed
qed

lemma device_is_kms_result:
  assumes "device_is_kms env res path fd_out w = Inr (ok, fd1, w1)"
  shows "ok = probe_ok env res path \<and> fd1 = (if ok then impl_open_ret env else fd_out)"
  using assms
  by (auto simp: device_is_kms_eq probe_ok_def split: option.splits if_splits)

section \<open>GPU discovery: the choice\<close>

lemma gpu_choice_from: "gpu_choice cs = choice_from (- 1) cs"
  by (simp add: gpu_choice_def choice_from_def)

lemma kms_capable_fd: "kms_capable c \<Longrightarrow> 0 \<le> candidate_fd c"
  by (simp add: kms_capable_def probe_ok_def candidate_fd_def)

lemma choice_from_Nil [simp]: "choice_from fd0 [] = fd0"
  by (simp add: choice_from_def)

lemma choice_from_skip:
  "\<not> kms_capable c \<Longrightarrow> choice_from fd0 (c # cs) = choice_from fd0 cs"
  by (simp add: choice_from_def split: option.splits)

lemma choice_from_skip_accepted:
  "\<not> is_boot_vga c \<Longrightarrow> 0 \<le> fd0 \<Longrightarrow> choice_from fd0 (c # cs) = choice_from fd0 cs"
  by (simp add: choice_from_def)

lemma choice_from_boot:
  "is_boot_vga c \<Longrightarrow> kms_capable c \<Longrightarrow> choice_from fd0 (c # cs) = candidate_fd c"
  by (simp add: choice_from_def)

lemma choice_from_first:
  "\<not> is_boot_vga c \<Longrightarrow> kms_capable c \<Longrightarrow> fd0 < 0 \<Longrightarrow>
     choice_from fd0 (c # cs) = choice_from (candidate_fd c) cs"
  by (simp add: choice_from_def kms_capable_fd split: option.splits)

lemma find_gpu_loop_unresolved:
  "udev_dev c = None \<Longrightarrow> find_gpu_loop (c # cs) fd0 w = find_gpu_loop cs fd0 w"
  by simp

lemma find_gpu_loop_skip:
  "udev_dev c = Some d \<Longrightarrow> \<not> is_boot_vga c \<Longrightarrow> 0 \<le> fd0 \<Longrightarrow>
     find_gpu_loop (c # cs) fd0 w = find_gpu_loop cs fd0 (emit (Udev_candidate_unref d) w)"
  by simp

lemma find_gpu_loop_probe:
  "udev_dev c = Some d \<Longrightarrow> is_boot_vga c \<or> fd0 < 0 \<Longrightarrow>
   device_is_kms (open_answers c) (resources c) (devnode c) fd0 w = Inr (ok, fd1, w1) \<Longrightarrow>
     find_gpu_loop (c # cs) fd0 w =
       (if ok \<and> is_boot_vga c then Inr (fd1, emit (Udev_candidate_unref d) w1)
        else find_gpu_loop cs fd1 (emit (Udev_candidate_unref d) w1))"
  by auto

lemma find_gpu_loop_abort:
  "udev_dev c = Some d \<Longrightarrow> is_boot_vga c \<or> fd0 < 0 \<Longrightarrow>
   device_is_kms (open_answers c) (resources c) (devnode c) fd0 w = Inl a \<Longrightarrow>
     find_gpu_loop (c # cs) fd0 w = Inl a"
  by auto

lemma find_gpu_loop_result:
  "find_gpu_loop cs fd0 w = Inr (r, w') \<Longrightarrow> r = choice_from fd0 cs"
proof (induction cs arbitrary: fd0 w)
  case Nil
  then show ?case by simp
next
  case (Cons c cs)
  show ?case
  proof (cases "udev_dev c")
    case None
    with Cons.prems have "find_gpu_loop cs fd0 w = Inr (r, w')"
      by (simp add: find_gpu_loop_unresolved del: find_gpu_loop.simps)
    then have "r = choice_from fd0 cs" by (rule Cons.IH)
    moreover from None have "\<not> kms_capable c" by (simp add: kms_capable_def)
    ultimately show ?thesis by (simp add: choice_from_skip)
  next
    case (Some d)
    show ?thesis
    proof (cases "\<not> is_boot_vga c \<and> 0 \<le> fd0")
      case True
      with Some Cons.prems
      have "find_gpu_loop cs fd0 (emit (Udev_candidate_unref d) w) = Inr (r, w')"
        by (simp add: find_gpu_loop_skip del: find_gpu_loop.simps)
      then have "r = choice_from fd0 cs" by (rule Cons.IH)
      with True show ?thesis by (simp add: choice_from_skip_accepted)
    next
      case False
      then have pr: "is_boot_vga c \<or> fd0 < 0" by auto
      from Some pr Cons.prems obtain ok fd1 w1 where
        k: "device_is_kms (open_answers c) (resources c) (devnode c) fd0 w = Inr (ok, fd1, w1)"
        by (cases "device_is_kms (open_answers c) (resources c) (devnode c) fd0 w")
           (auto simp only: find_gpu_loop_abort)
      have ok: "ok = probe_ok (open_answers c) (resources c) (devnode c)"
        and fd1: "fd1 = (if ok then candidate_fd c else fd0)"
        using device_is_kms_result [OF k] by (simp_all add: candidate_fd_def)
      from ok Some have cap: "kms_capable c = ok" by (simp add: kms_capable_def)
      from Cons.prems have step:
        "(if ok \<and> is_boot_vga c then Inr (fd1, emit (Udev_candidate_unref d) w1)
          else find_gpu_loop cs fd1 (emit (Udev_candidate_unref d) w1)) = Inr (r, w')"
        by (simp only: find_gpu_loop_probe [OF Some pr k])
      show ?thesis
      proof (cases ok)
        case no: False
        with step
        have "find_gpu_loop cs fd1 (emit (Udev_candidate_unref d) w1) = Inr (r, w')" by simp
        then have "r = choice_from fd1 cs" by (rule Cons.IH)
        with no fd1 cap show ?thesis by (simp add: choice_from_skip)
      next
        case yes: True
        show ?thesis
        proof (cases "is_boot_vga c")
          case True
          with step yes have "r = fd1" by simp
          with True yes fd1 cap show ?thesis by (simp add: choice_from_boot)
        next
          case nb: False
          with pr have neg: "fd0 < 0" by simp
          from step nb
          have "find_gpu_loop cs fd1 (emit (Udev_candidate_unref d) w1) = Inr (r, w')" by simp
          then have "r = choice_from fd1 cs" by (rule Cons.IH)
          with nb yes fd1 cap neg show ?thesis by (simp add: choice_from_first)
        qed
      qed
    qed
  qed
qed

lemma registered_after_close:
  "registered_fds (after_close g w) = device_fd ` set (unlink_fd (devices (session w)) g)"
  by (simp add: registered_fds_def)

lemma unlink_other_mem:
  "g \<noteq> f \<Longrightarrow> f \<in> device_fd ` set (unlink_fd ds g) \<longleftrightarrow> f \<in> device_fd ` set ds"
  by (induction ds) auto

lemma device_is_kms_returns:
  assumes "open_completes env" and "fd_out < 0 \<or> fd_out \<in> registered_fds w"
  shows "\<exists>fd1 w1. device_is_kms env res path fd_out w = Inr (probe_ok env res path, fd1, w1)
           \<and> (fd1 < 0 \<or> fd1 \<in> registered_fds w1)"
proof (cases path)
  case None
  with assms show ?thesis by (simp add: device_is_kms_eq probe_ok_def)
next
  case (Some p)
  show ?thesis
  proof (cases "impl_open_ret env < 0")
    case True
    with Some assms show ?thesis
      by (auto simp: device_is_kms_eq probe_ok_def registered_after_open)
  next
    case False
    with assms(1) have reg: "registers env" by (simp add: open_completes_def)
    show ?thesis
    proof (cases "usable res")
      case nu: False
      with Some False reg assms(2) show ?thesis
        by (auto simp: device_is_kms_eq probe_ok_def registered_after_open
              registered_after_close devices_after_open registered_fds_def)
    next
      case us: True
      show ?thesis
      proof (cases "fd_out < 0")
        case True
        with Some False reg us show ?thesis
          by (simp add: device_is_kms_eq probe_ok_def registered_after_open)
      next
        case nn: False
        with assms(2) have m: "fd_out \<in> registered_fds w" by simp
        show ?thesis
        proof (cases "fd_out = impl_open_ret env")
          case True
          with Some False reg us nn m show ?thesis
            by (simp add: device_is_kms_eq probe_ok_def registered_after_open
                  registered_after_close devices_after_open registered_fds_def)
        next
          case ne: False
          with Some False reg us nn m show ?thesis
            by (simp add: device_is_kms_eq probe_ok_def registered_after_open
                  registered_after_close devices_after_open registered_fds_def)
        qed
      qed
    qed
  qed
qed

lemma find_gpu_loop_returns:
  assumes "\<forall>c\<in>set cs. open_completes (open_answers c)"
    and "fd0 < 0 \<or> fd0 \<in> registered_fds w"
  shows "\<exists>r w'. find_gpu_loop cs fd0 w = Inr (r, w')"
  using assms
proof (induction cs arbitrary: fd0 w)
  case Nil
  then show ?case by simp
next
  case (Cons c cs)
  from Cons.prems(1) have rest: "\<forall>c\<in>set cs. open_completes (open_answers c)"
    and oc: "open_completes (open_answers c)" by simp_all
  show ?case
  proof (cases "udev_dev c")
    case None
    with Cons.IH [OF rest Cons.prems(2)] show ?thesis
      by (simp add: find_gpu_loop_unresolved del: find_gpu_loop.simps)
  next
    case (Some d)
    show ?thesis
    proof (cases "\<not> is_boot_vga c \<and> 0 \<le> fd0")
      case True
      from Cons.prems(2)
      have "fd0 < 0 \<or> fd0 \<in> registered_fds (emit (Udev_candidate_unref d) w)" by simp
      from Cons.IH [OF rest this] Some True show ?thesis
        by (simp add: find_gpu_loop_skip del: find_gpu_loop.simps)
    next
      case False
      then have pr: "is_boot_vga c \<or> fd0 < 0" by auto
      from device_is_kms_returns [OF oc Cons.prems(2)] obtain fd1 w1 where
        k: "device_is_kms (open_answers c) (resources c) (devnode c) fd0 w =
             Inr (probe_ok (open_answers c) (resources c) (devnode c), fd1, w1)"
        and t: "fd1 < 0 \<or> fd1 \<in> registered_fds w1" by blast
      from t have "fd1 < 0 \<or> fd1 \<in> registered_fds (emit (Udev_candidate_unref d) w1)" by simp
      from Cons.IH [OF rest this] obtain r w' where
        "find_gpu_loop cs fd1 (emit (Udev_candidate_unref d) w1) = Inr (r, w')" by blast
      then show ?thesis
        by (simp add: find_gpu_loop_probe [OF Some pr k] del: find_gpu_loop.simps)
    qed
  qed
qed

section \<open>GPU discovery: what is left alone\<close>

lemma trace_after_open: "trace (after_open env p w) = trace w @ open_events env p"
  by (auto simp: after_open_def wlr_session_open_file_def open_events_def registers_def Let_def
        split: option.splits)

lemma no_close_in_open_events [simp]: "Impl_close f \<notin> set (open_events env p)"
  by (simp add: open_events_def)

lemma trace_queried:
  "trace (queried env res p w) =
     trace w @ open_events env p @ Drm_mode_get_resources (impl_open_ret env)
       # (if res = None \<or> usable res then [] else [Drm_mode_free_resources])"
  by (simp add: queried_def Let_def trace_after_open)

lemma lookup_unlink_other: "g \<noteq> f \<Longrightarrow> lookup_fd (unlink_fd ds g) f = lookup_fd ds f"
  by (induction ds) auto

lemma lookup_after_open:
  "impl_open_ret env \<noteq> f \<Longrightarrow>
     lookup_fd (devices (session (after_open env p w))) f = lookup_fd (devices (session w)) f"
  by (simp add: devices_after_open)

text \<open>What a probe leaves alone.\<close>

lemma device_is_kms_frame:
  assumes k: "device_is_kms env res path fd_out w = Inr (ok, fd1, w1)"
    and new: "impl_open_ret env \<noteq> f"
    and keep: "ok \<longrightarrow> fd_out < 0 \<or> fd_out \<noteq> f"
  shows "lookup_fd (devices (session w1)) f = lookup_fd (devices (session w)) f
         \<and> (\<exists>es. trace w1 = trace w @ es \<and> Impl_close f \<notin> set es)"
proof (cases path)
  case None
  with k show ?thesis by (simp add: device_is_kms_eq)
next
  case (Some p)
  show ?thesis
  proof (cases "impl_open_ret env < 0")
    case True
    with Some k new show ?thesis
      by (auto simp: device_is_kms_eq lookup_after_open trace_after_open)
  next
    case False
    show ?thesis
    proof (cases "usable res")
      case nu: False
      with Some False k have r: "impl_open_ret env \<in> registered_fds (after_open env p w)"
        and w1: "w1 = after_close (impl_open_ret env) (queried env res p w)"
        by (auto simp: device_is_kms_eq split: if_splits)
      from w1 new have "lookup_fd (devices (session w1)) f = lookup_fd (devices (session w)) f"
        by (simp add: lookup_unlink_other lookup_after_open)
      moreover from w1 new have "trace w1 = trace w @ (open_events env p
          @ Drm_mode_get_resources (impl_open_ret env)
            # (if res = None \<or> usable res then [] else [Drm_mode_free_resources])
          @ [Impl_close (impl_open_ret env), Free_device True])"
        by (simp add: trace_queried)
      moreover from new have "Impl_close f \<notin> set (open_events env p
          @ Drm_mode_get_resources (impl_open_ret env)
            # (if res = None \<or> usable res then [] else [Drm_mode_free_resources])
          @ [Impl_close (impl_open_ret env), Free_device True])"
        by auto
      ultimately show ?thesis by blast
    next
      case us: True
      show ?thesis
      proof (cases "fd_out < 0")
        case True
        with Some False us k
        have w1: "w1 = emit Drm_mode_free_resources (queried env res p w)"
          by (auto simp: device_is_kms_eq)
        with new have "lookup_fd (devices (session w1)) f = lookup_fd (devices (session w)) f"
          by (simp add: lookup_after_open)
        moreover from w1 us have "trace w1 = trace w @ (open_events env p
            @ [Drm_mode_get_resources (impl_open_ret env), Drm_mode_free_resources])"
          by (simp add: trace_queried)
        moreover have "Impl_close f \<notin> set (open_events env p
            @ [Drm_mode_get_resources (impl_open_ret env), Drm_mode_free_resources])"
          by simp
        ultimately show ?thesis by blast
      next
        case nn: False
        with Some False us k
        have w1: "w1 = emit Drm_mode_free_resources (after_close fd_out (queried env res p w))"
          and ok: ok
          by (auto simp: device_is_kms_eq split: if_splits)
        from ok keep nn have ne: "fd_out \<noteq> f" by simp
        with w1 new have "lookup_fd (devices (session w1)) f = lookup_fd (devices (session w)) f"
          by (simp add: lookup_unlink_other lookup_after_open)
        moreover from w1 us have "trace w1 = trace w @ (open_events env p
            @ [Drm_mode_get_resources (impl_open_ret env), Impl_close fd_out, Free_device True,
               Drm_mode_free_resources])"
          by (simp add: trace_queried)
        moreover from ne have "Impl_close f \<notin> set (open_events env p
            @ [Drm_mode_get_resources (impl_open_ret env), Impl_close fd_out, Free_device True,
               Drm_mode_free_resources])"
          by simp
        ultimately show ?thesis by blast
      qed
    qed
  qed
qed

lemma device_is_kms_abort_trace:
  assumes "device_is_kms env res path fd_out w = Inl (Assert_failed wa)"
  shows "\<exists>es. trace wa = trace w @ es \<and> (\<forall>g. Impl_close g \<notin> set es)"
proof (cases path)
  case None
  with assms show ?thesis by (simp add: device_is_kms_eq)
next
  case (Some p)
  with assms have wa: "wa = emit not_opened_msg (queried env res p w)"
    by (auto simp: device_is_kms_eq split: if_splits)
  then have "trace wa = trace w @ (open_events env p
      @ Drm_mode_get_resources (impl_open_ret env)
        # (if res = None \<or> usable res then [] else [Drm_mode_free_resources])
      @ [not_opened_msg])"
    by (simp add: trace_queried)
  moreover have "\<forall>g. Impl_close g \<notin> set (open_events env p
      @ Drm_mode_get_resources (impl_open_ret env)
        # (if res = None \<or> usable res then [] else [Drm_mode_free_resources])
      @ [not_opened_msg])"
    by (simp add: not_opened_msg_def)
  ultimately show ?thesis by blast
qed

text \<open>What the loop leaves alone.\<close>

lemma find_gpu_loop_frame:
  assumes "find_gpu_loop cs fd0 w = Inr (r, w')"
    and "\<forall>c\<in>set cs. candidate_fd c \<noteq> f"
    and "(fd0 < 0 \<or> fd0 \<noteq> f) \<or> (\<forall>c\<in>set cs. \<not> (is_boot_vga c \<and> kms_capable c))"
  shows "lookup_fd (devices (session w')) f = lookup_fd (devices (session w)) f
         \<and> (\<exists>es. trace w' = trace w @ es \<and> Impl_close f \<notin> set es)"
  using assms
proof (induction cs arbitrary: fd0 w)
  case Nil
  then show ?case by simp
next
  case (Cons c cs)
  from Cons.prems(2) have rest: "\<forall>c\<in>set cs. candidate_fd c \<noteq> f"
    and cf: "candidate_fd c \<noteq> f" by simp_all
  from Cons.prems(3)
  have inv: "(fd0 < 0 \<or> fd0 \<noteq> f) \<or> (\<forall>c\<in>set cs. \<not> (is_boot_vga c \<and> kms_capable c))"
    by auto
  show ?case
  proof (cases "udev_dev c")
    case None
    with Cons.prems(1) have "find_gpu_loop cs fd0 w = Inr (r, w')"
      by (simp add: find_gpu_loop_unresolved del: find_gpu_loop.simps)
    from Cons.IH [OF this rest inv] show ?thesis .
  next
    case (Some d)
    show ?thesis
    proof (cases "\<not> is_boot_vga c \<and> 0 \<le> fd0")
      case True
      with Some Cons.prems(1)
      have "find_gpu_loop cs fd0 (emit (Udev_candidate_unref d) w) = Inr (r, w')"
        by (simp add: find_gpu_loop_skip del: find_gpu_loop.simps)
      from Cons.IH [OF this rest inv]
      obtain es where l: "lookup_fd (devices (session w')) f = lookup_fd (devices (session w)) f"
        and t: "trace w' = trace w @ (Udev_candidate_unref d # es)" and n: "Impl_close f \<notin> set es"
        by auto
      from n have "Impl_close f \<notin> set (Udev_candidate_unref d # es)" by simp
      with l t show ?thesis by blast
    next
      case False
      then have pr: "is_boot_vga c \<or> fd0 < 0" by auto
      from Some pr Cons.prems(1) obtain ok fd1 w1 where
        k: "device_is_kms (open_answers c) (resources c) (devnode c) fd0 w = Inr (ok, fd1, w1)"
        by (cases "device_is_kms (open_answers c) (resources c) (devnode c) fd0 w")
           (auto simp only: find_gpu_loop_abort)
      have ok: "ok = probe_ok (open_answers c) (resources c) (devnode c)"
        and fd1: "fd1 = (if ok then candidate_fd c else fd0)"
        using device_is_kms_result [OF k] by (simp_all add: candidate_fd_def)
      from ok Some have cap: "kms_capable c = ok" by (simp add: kms_capable_def)
      have keep: "ok \<longrightarrow> fd0 < 0 \<or> fd0 \<noteq> f"
      proof
        assume ok
        show "fd0 < 0 \<or> fd0 \<noteq> f"
        proof (cases "is_boot_vga c")
          case True
          with \<open>ok\<close> cap Cons.prems(3) show ?thesis by auto
        next
          case False
          with pr show ?thesis by simp
        qed
      qed
      from cf have new: "impl_open_ret (open_answers c) \<noteq> f" by (simp add: candidate_fd_def)
      from device_is_kms_frame [OF k new keep] obtain es1 where
        l1: "lookup_fd (devices (session w1)) f = lookup_fd (devices (session w)) f"
        and t1: "trace w1 = trace w @ es1" and n1: "Impl_close f \<notin> set es1" by blast
      from Cons.prems(1) have step:
        "(if ok \<and> is_boot_vga c then Inr (fd1, emit (Udev_candidate_unref d) w1)
          else find_gpu_loop cs fd1 (emit (Udev_candidate_unref d) w1)) = Inr (r, w')"
        by (simp only: find_gpu_loop_probe [OF Some pr k])
      show ?thesis
      proof (cases "ok \<and> is_boot_vga c")
        case True
        with step have "w' = emit (Udev_candidate_unref d) w1" by simp
        with l1 t1 have "lookup_fd (devices (session w')) f = lookup_fd (devices (session w)) f"
          and "trace w' = trace w @ (es1 @ [Udev_candidate_unref d])" by simp_all
        moreover from n1 have "Impl_close f \<notin> set (es1 @ [Udev_candidate_unref d])" by simp
        ultimately show ?thesis by blast
      next
        case go: False
        with step
        have run: "find_gpu_loop cs fd1 (emit (Udev_candidate_unref d) w1) = Inr (r, w')"
          by simp
        have inv1: "(fd1 < 0 \<or> fd1 \<noteq> f) \<or> (\<forall>c\<in>set cs. \<not> (is_boot_vga c \<and> kms_capable c))"
          using fd1 cf inv by (cases ok) auto
        from Cons.IH [OF run rest inv1] obtain es where
          l: "lookup_fd (devices (session w')) f = lookup_fd (devices (session w1)) f"
          and t: "trace w' = trace w1 @ Udev_candidate_unref d # es"
          and n: "Impl_close f \<notin> set es" by auto
        from l l1 have "lookup_fd (devices (session w')) f = lookup_fd (devices (session w)) f"
          by simp
        moreover from t t1 have "trace w' = trace w @ (es1 @ Udev_candidate_unref d # es)"
          by simp
        moreover from n n1 have "Impl_close f \<notin> set (es1 @ Udev_candidate_unref d # es)"
          by simp
        ultimately show ?thesis by blast
      qed
    qed
  qed
qed

section \<open>GPU discovery: the result\<close>

lemma find_gpu_loop_skip_many:
  "0 \<le> fd0 \<Longrightarrow> \<forall>c\<in>set skipped. \<not> is_boot_vga c \<Longrightarrow>
     find_gpu_loop (skipped @ cs) fd0 w = find_gpu_loop cs fd0 (released skipped w)"
proof (induction skipped arbitrary: w)
  case Nil
  then show ?case by simp
next
  case (Cons c skipped)
  then show ?case by (cases "udev_dev c") simp_all
qed

lemma find_gpu_eq:
  "wlr_session_find_gpu (Some cs) w = Inr (r, w') \<longleftrightarrow>
     (\<exists>w1. find_gpu_loop cs (- 1) w = Inr (r, w1) \<and> w' = emit Udev_enumerate_unref w1)"
  by (auto simp: wlr_session_find_gpu_def split: sum.splits)

text \<open>
  When the enumeration cannot be set up, discovery returns \<open>-1\<close>.  Otherwise, whenever
  it returns, it returns the descriptor of the first KMS-capable boot VGA candidate if there
  is one, else that of the first KMS-capable candidate, else \<open>-1\<close>; and it does return when
  no call of \<^verbatim>\<open>wlr_session_open_file\<close> in it takes the path through the label \<^verbatim>\<open>error\<close>.
  Once a descriptor is accepted, candidates that are not boot VGA are skipped without a
  probe (their device is released, nothing is opened or queried); and when a boot VGA
  candidate passes the probe the loop ends at once, whatever candidates follow.
\<close>

theorem find_gpu_selection:
  "wlr_session_find_gpu None w = Inr (- 1, emit enumeration_failed_msg w)
   \<and> (\<forall>r w'. wlr_session_find_gpu (Some cs) w = Inr (r, w') \<longrightarrow> r = gpu_choice cs)
   \<and> ((\<forall>c\<in>set cs. open_completes (open_answers c)) \<longrightarrow>
        (\<exists>w'. wlr_session_find_gpu (Some cs) w = Inr (gpu_choice cs, w')))
   \<and> (0 \<le> acc \<and> (\<forall>c\<in>set skipped. \<not> is_boot_vga c) \<longrightarrow>
        find_gpu_loop (skipped @ cs) acc w = find_gpu_loop cs acc (released skipped w))
   \<and> (udev_dev c = Some d \<and> is_boot_vga c
        \<and> device_is_kms (open_answers c) (resources c) (devnode c) acc w = Inr (True, got, wk) \<longrightarrow>
        find_gpu_loop (c # cs) acc w = Inr (got, emit (Udev_candidate_unref d) wk))"
proof (intro conjI allI impI)
  show "wlr_session_find_gpu None w = Inr (- 1, emit enumeration_failed_msg w)"
    by (simp add: wlr_session_find_gpu_def enumeration_failed_msg_def)
next
  fix r w'
  assume "wlr_session_find_gpu (Some cs) w = Inr (r, w')"
  then obtain w1 where "find_gpu_loop cs (- 1) w = Inr (r, w1)"
    by (auto simp: find_gpu_eq)
  then have "r = choice_from (- 1) cs" by (rule find_gpu_loop_result)
  then show "r = gpu_choice cs" by (simp add: gpu_choice_from)
next
  assume a: "\<forall>c\<in>set cs. open_completes (open_answers c)"
  have "- 1 < (0::int) \<or> - 1 \<in> registered_fds w" by simp
  from find_gpu_loop_returns [OF a this] obtain r w1 where
    l: "find_gpu_loop cs (- 1) w = Inr (r, w1)" by blast
  then have "r = choice_from (- 1) cs" by (rule find_gpu_loop_result)
  with l have "wlr_session_find_gpu (Some cs) w = Inr (gpu_choice cs, emit Udev_enumerate_unref w1)"
    by (simp add: find_gpu_eq gpu_choice_from)
  then show "\<exists>w'. wlr_session_find_gpu (Some cs) w = Inr (gpu_choice cs, w')" by blast
next
  assume "0 \<le> acc \<and> (\<forall>c\<in>set skipped. \<not> is_boot_vga c)"
  then show "find_gpu_loop (skipped @ cs) acc w = find_gpu_loop cs acc (released skipped w)"
    by (simp add: find_gpu_loop_skip_many)
next
  assume "udev_dev c = Some d \<and> is_boot_vga c
        \<and> device_is_kms (open_answers c) (resources c) (devnode c) acc w = Inr (True, got, wk)"
  then show "find_gpu_loop (c # cs) acc w = Inr (got, emit (Udev_candidate_unref d) wk)"
    by (simp add: find_gpu_loop_probe del: find_gpu_loop.simps)
qed

text \<open>Definitions to unfold when a run is evaluated on concrete values.\<close>

lemmas concrete_defs =
  three_gpus_def gpu_def kms_res_def fresh_def created_session_def direct_session_def

lemmas run_defs =
  wlr_session_find_gpu_def device_is_kms_def wlr_session_open_file_def
  wlr_session_close_file_def find_device_def is_boot_vga_def emit_def Let_def

text \<open>Three KMS-capable cards, the second one boot VGA: discovery returns descriptor 6 of
  the second; after it, \<^verbatim>\<open>card2\<close> is skipped, and the loop that starts at \<^verbatim>\<open>card1\<close> stops
  there.\<close>

theorem find_gpu_selection_witness:
  "list_all (\<lambda>c. open_completes (open_answers c)) three_gpus
   \<and> gpu_choice three_gpus = 6
   \<and> (\<exists>w'. wlr_session_find_gpu (Some three_gpus) fresh = Inr (6, w'))
   \<and> find_gpu_loop ([gpu ''card2'' 2 7 False (Some kms_res)] @ []) 6 fresh
       = Inr (6, fresh\<lparr>trace := [Udev_candidate_unref 2]\<rparr>)
   \<and> find_gpu_loop (gpu ''card1'' 1 6 True (Some kms_res) # [gpu ''card2'' 2 7 False (Some kms_res)])
         (- 1) fresh
       = Inr (6, \<lparr>session = created_session\<lparr>devices :=
                      [\<lparr>device_fd = 6, device_dev = 57857, device_signal = []\<rparr>]\<rparr>,
                  trace = [Impl_open ''/dev/dri/card1'' 6, Drm_mode_get_resources 6,
                           Drm_mode_free_resources, Udev_candidate_unref 1]\<rparr>)"
proof -
  have h: "\<forall>c\<in>set three_gpus. open_completes (open_answers c)"
    by (simp add: three_gpus_def gpu_def open_completes_def registers_def)
  have c: "gpu_choice three_gpus = 6"
    by (simp add: gpu_choice_def kms_capable_def probe_ok_def usable_def candidate_fd_def
          is_boot_vga_def three_gpus_def gpu_def kms_res_def)
  have s: "(0::int) \<le> 6 \<and> (\<forall>c\<in>set [gpu ''card2'' 2 7 False (Some kms_res)]. \<not> is_boot_vga c)"
    by (simp add: gpu_def is_boot_vga_def)
  have r: "released [gpu ''card2'' 2 7 False (Some kms_res)] fresh
      = fresh\<lparr>trace := [Udev_candidate_unref 2]\<rparr>"
    by (simp add: gpu_def fresh_def emit_def)
  have k: "udev_dev (gpu ''card1'' 1 6 True (Some kms_res)) = Some 1
      \<and> is_boot_vga (gpu ''card1'' 1 6 True (Some kms_res))
      \<and> device_is_kms (open_answers (gpu ''card1'' 1 6 True (Some kms_res)))
          (resources (gpu ''card1'' 1 6 True (Some kms_res)))
          (devnode (gpu ''card1'' 1 6 True (Some kms_res))) (- 1) fresh
        = Inr (True, 6, \<lparr>session = created_session\<lparr>devices :=
                      [\<lparr>device_fd = 6, device_dev = 57857, device_signal = []\<rparr>]\<rparr>,
                  trace = [Impl_open ''/dev/dri/card1'' 6, Drm_mode_get_resources 6,
                           Drm_mode_free_resources]\<rparr>)"
    by (simp add: run_defs concrete_defs)
  from h c s r k
    find_gpu_selection [where w = fresh and cs = three_gpus and acc = 6
      and skipped = "[gpu ''card2'' 2 7 False (Some kms_res)]"]
    find_gpu_selection [where w = fresh and cs = "[]" and acc = 6
      and skipped = "[gpu ''card2'' 2 7 False (Some kms_res)]"]
    find_gpu_selection [where w = fresh and cs = "[gpu ''card2'' 2 7 False (Some kms_res)]"
      and acc = "- 1" and skipped = "[]" and c = "gpu ''card1'' 1 6 True (Some kms_res)"
      and d = 1 and got = 6
      and wk = "\<lparr>session = created_session\<lparr>devices :=
                      [\<lparr>device_fd = 6, device_dev = 57857, device_signal = []\<rparr>]\<rparr>,
                  trace = [Impl_open ''/dev/dri/card1'' 6, Drm_mode_get_resources 6,
                           Drm_mode_free_resources]\<rparr>"]
  show ?thesis
    by (simp add: list_all_iff emit_def del: find_gpu_loop.simps(2))
qed

section \<open>GPU discovery on the error path of the open\<close>

text \<open>
  C4.  A single card that is not boot VGA: the backend opens it as descriptor 5, \<^verbatim>\<open>malloc\<close>
  fails in \<^verbatim>\<open>wlr_session_open_file\<close> and the resource query fails.  No candidate is
  KMS-capable, so the choice is \<open>-1\<close>, but discovery does not return: the probe goes to close
  descriptor 5, which the registry does not hold, and reaches the assertion of
  \<^verbatim>\<open>find_device\<close>.  The same card with usable resources is accepted unregistered; when a
  KMS-capable boot VGA card follows, the choice is its descriptor 6, but discovery goes to
  close descriptor 5 before replacing it and reaches the assertion instead of returning 6.
\<close>

theorem find_gpu_aborts_on_open_error_path:
  "gpu_choice [unregistered_card None] = - 1
   \<and> wlr_session_find_gpu (Some [unregistered_card None]) fresh =
       Inl (Assert_failed (fresh\<lparr>trace := [Impl_open ''/dev/dri/card0'' 5,
                                  Wlr_log L_ERROR ''Allocation failed'', Free_device False,
                                  Drm_mode_get_resources 5, not_opened_msg]\<rparr>))
   \<and> gpu_choice [unregistered_card (Some kms_res), gpu ''card1'' 1 6 True (Some kms_res)] = 6
   \<and> wlr_session_find_gpu
         (Some [unregistered_card (Some kms_res), gpu ''card1'' 1 6 True (Some kms_res)]) fresh =
       Inl (Assert_failed
             \<lparr>session = created_session\<lparr>devices :=
                  [\<lparr>device_fd = 6, device_dev = 57857, device_signal = []\<rparr>]\<rparr>,
              trace = [Impl_open ''/dev/dri/card0'' 5,
                       Wlr_log L_ERROR ''Allocation failed'', Free_device False,
                       Drm_mode_get_resources 5, Drm_mode_free_resources, Udev_candidate_unref 0,
                       Impl_open ''/dev/dri/card1'' 6, Drm_mode_get_resources 6,
                       not_opened_msg]\<rparr>)"
proof -
  have a: "gpu_choice [unregistered_card None] = - 1"
    by (simp add: gpu_choice_def kms_capable_def probe_ok_def usable_def unregistered_card_def)
  have b: "wlr_session_find_gpu (Some [unregistered_card None]) fresh =
       Inl (Assert_failed (fresh\<lparr>trace := [Impl_open ''/dev/dri/card0'' 5,
                                  Wlr_log L_ERROR ''Allocation failed'', Free_device False,
                                  Drm_mode_get_resources 5, not_opened_msg]\<rparr>))"
    by (simp add: run_defs unregistered_card_def alloc_fails_def fresh_def created_session_def
          direct_session_def not_opened_msg_def)
  have c: "gpu_choice [unregistered_card (Some kms_res), gpu ''card1'' 1 6 True (Some kms_res)] = 6"
    by (simp add: gpu_choice_def kms_capable_def probe_ok_def usable_def candidate_fd_def
          is_boot_vga_def unregistered_card_def alloc_fails_def gpu_def kms_res_def)
  have d: "wlr_session_find_gpu
         (Some [unregistered_card (Some kms_res), gpu ''card1'' 1 6 True (Some kms_res)]) fresh =
       Inl (Assert_failed
             \<lparr>session = created_session\<lparr>devices :=
                  [\<lparr>device_fd = 6, device_dev = 57857, device_signal = []\<rparr>]\<rparr>,
              trace = [Impl_open ''/dev/dri/card0'' 5,
                       Wlr_log L_ERROR ''Allocation failed'', Free_device False,
                       Drm_mode_get_resources 5, Drm_mode_free_resources, Udev_candidate_unref 0,
                       Impl_open ''/dev/dri/card1'' 6, Drm_mode_get_resources 6,
                       not_opened_msg]\<rparr>)"
    by (simp add: run_defs unregistered_card_def alloc_fails_def gpu_def kms_res_def fresh_def
          created_session_def direct_session_def not_opened_msg_def)
  from a b c d show ?thesis by (intro conjI)
qed

section \<open>The backend is chosen once\<close>

lemma impl_after_open [simp]: "impl (session (after_open env p w)) = impl (session w)"
  by (simp add: after_open_def)

lemma impl_device_is_kms_branches:
  "device_is_kms env res path fd_out w = Inr (ok, fd1, w1) \<Longrightarrow> impl (session w1) = impl (session w)"
  by (auto simp: device_is_kms_eq split: option.splits if_splits)

lemma impl_find_gpu_loop:
  "find_gpu_loop cs fd0 w = Inr (r, w') \<Longrightarrow> impl (session w') = impl (session w)"
proof (induction cs arbitrary: fd0 w)
  case Nil
  then show ?case by simp
next
  case (Cons c cs)
  show ?case
  proof (cases "udev_dev c")
    case None
    with Cons.prems have "find_gpu_loop cs fd0 w = Inr (r, w')"
      by (simp add: find_gpu_loop_unresolved del: find_gpu_loop.simps)
    then show ?thesis by (rule Cons.IH)
  next
    case (Some d)
    show ?thesis
    proof (cases "\<not> is_boot_vga c \<and> 0 \<le> fd0")
      case True
      with Some Cons.prems
      have "find_gpu_loop cs fd0 (emit (Udev_candidate_unref d) w) = Inr (r, w')"
        by (simp add: find_gpu_loop_skip del: find_gpu_loop.simps)
      from Cons.IH [OF this] show ?thesis by simp
    next
      case False
      then have pr: "is_boot_vga c \<or> fd0 < 0" by auto
      from Some pr Cons.prems obtain ok fd1 w1 where
        k: "device_is_kms (open_answers c) (resources c) (devnode c) fd0 w = Inr (ok, fd1, w1)"
        by (cases "device_is_kms (open_answers c) (resources c) (devnode c) fd0 w")
           (auto simp only: find_gpu_loop_abort)
      from k have i: "impl (session w1) = impl (session w)" by (rule impl_device_is_kms_branches)
      from Cons.prems have step:
        "(if ok \<and> is_boot_vga c then Inr (fd1, emit (Udev_candidate_unref d) w1)
          else find_gpu_loop cs fd1 (emit (Udev_candidate_unref d) w1)) = Inr (r, w')"
        by (simp only: find_gpu_loop_probe [OF Some pr k])
      show ?thesis
      proof (cases "ok \<and> is_boot_vga c")
        case True
        with step i show ?thesis by auto
      next
        case go: False
        with step
        have "find_gpu_loop cs fd1 (emit (Udev_candidate_unref d) w1) = Inr (r, w')" by simp
        from Cons.IH [OF this] i show ?thesis by simp
      qed
    qed
  qed
qed

lemma impl_find_gpu:
  "wlr_session_find_gpu en w = Inr (r, w') \<Longrightarrow> impl (session w') = impl (session w)"
proof (cases en)
  case None
  moreover assume "wlr_session_find_gpu en w = Inr (r, w')"
  ultimately show ?thesis by (auto simp: wlr_session_find_gpu_def)
next
  case (Some cs)
  moreover assume "wlr_session_find_gpu en w = Inr (r, w')"
  ultimately obtain w1 where "find_gpu_loop cs (- 1) w = Inr (r, w1)"
    and "w' = emit Udev_enumerate_unref w1"
    by (auto simp: find_gpu_eq)
  then show ?thesis by (simp add: impl_find_gpu_loop)
qed

text \<open>
  C8.  The table of backends is the logind backend (only when compiled in) followed by the
  direct backend.  \<^verbatim>\<open>wlr_session_create\<close> calls their \<^verbatim>\<open>create\<close> in that order up to and
  including the first that returns a session and calls none after it; it fails with
  \<open>NoBackendAvailable\<close> exactly when every \<^verbatim>\<open>create\<close> of the table fails; the session it
  returns is the one the first successful backend returned, with that backend's \<open>impl\<close>;
  and no operation of the file changes \<open>impl\<close> afterwards.
\<close>

theorem backend_selection:
  "impls True = [Session_logind, Session_direct] \<and> impls False = [Session_direct]
   \<and> probed (snd (wlr_session_create hs env [])) =
       takeWhile (\<lambda>i. impl_create env i = None) (impls hs)
         @ take 1 (dropWhile (\<lambda>i. impl_create env i = None) (impls hs))
   \<and> (fst (wlr_session_create hs env t) = Inl NoBackendAvailable
        \<longleftrightarrow> (\<forall>i\<in>set (impls hs). impl_create env i = None))
   \<and> (\<forall>s. fst (wlr_session_create hs env t) = Inr s \<longrightarrow>
        (\<exists>i s0. find (\<lambda>i. impl_create env i \<noteq> None) (impls hs) = Some i
           \<and> impl_create env i = Some s0 \<and> impl s = impl s0
           \<and> s = s0\<lparr>active := True, session_signal := [], devices := [],
                    udev := udev_new_ret env, mon := udev_monitor_new_ret env,
                    udev_event_source := wl_event_loop_add_fd_ret env\<rparr>))
   \<and> impl (session (snd (wlr_session_open_file oe p w))) = impl (session w)
   \<and> (\<forall>w'. wlr_session_close_file g w = Inr w' \<longrightarrow> impl (session w') = impl (session w))
   \<and> (\<forall>w'. wlr_session_signal_add g l w = Inr w' \<longrightarrow> impl (session w') = impl (session w))
   \<and> impl (session (snd (udev_event received w))) = impl (session w)
   \<and> (\<forall>r w'. wlr_session_find_gpu en w = Inr (r, w') \<longrightarrow> impl (session w') = impl (session w))
   \<and> (\<forall>b w'. wlr_session_change_vt ret vt (Some w) = (b, Some w') \<longrightarrow>
        impl (session w') = impl (session w))"
proof (intro conjI allI impI)
  show "impls True = [Session_logind, Session_direct]" by (simp add: impls_def)
  show "impls False = [Session_direct]" by (simp add: impls_def)
  show "probed (snd (wlr_session_create hs env [])) =
       takeWhile (\<lambda>i. impl_create env i = None) (impls hs)
         @ take 1 (dropWhile (\<lambda>i. impl_create env i = None) (impls hs))"
    by (simp add: create_probed)
  show "fst (wlr_session_create hs env t) = Inl NoBackendAvailable
        \<longleftrightarrow> (\<forall>i\<in>set (impls hs). impl_create env i = None)"
    by (rule create_no_backend)
  show "impl (session (snd (wlr_session_open_file oe p w))) = impl (session w)" by simp
  show "impl (session (snd (udev_event received w))) = impl (session w)" by simp
next
  fix s
  assume "fst (wlr_session_create hs env t) = Inr s"
  from create_selected [OF this] obtain i s0 where
    "find (\<lambda>i. impl_create env i \<noteq> None) (impls hs) = Some i" "impl_create env i = Some s0"
    "s = s0\<lparr>active := True, session_signal := [], devices := [],
                    udev := udev_new_ret env, mon := udev_monitor_new_ret env,
                    udev_event_source := wl_event_loop_add_fd_ret env\<rparr>" by blast
  moreover from this have "impl s = impl s0" by simp
  ultimately show "\<exists>i s0. find (\<lambda>i. impl_create env i \<noteq> None) (impls hs) = Some i
           \<and> impl_create env i = Some s0 \<and> impl s = impl s0
           \<and> s = s0\<lparr>active := True, session_signal := [], devices := [],
                    udev := udev_new_ret env, mon := udev_monitor_new_ret env,
                    udev_event_source := wl_event_loop_add_fd_ret env\<rparr>" by blast
next
  fix w'
  assume "wlr_session_close_file g w = Inr w'"
  then show "impl (session w') = impl (session w)" by (rule impl_close_file)
next
  fix w'
  assume "wlr_session_signal_add g l w = Inr w'"
  then show "impl (session w') = impl (session w)" by (rule impl_signal_add)
next
  fix r w'
  assume "wlr_session_find_gpu en w = Inr (r, w')"
  then show "impl (session w') = impl (session w)" by (rule impl_find_gpu)
next
  fix b w'
  assume "wlr_session_change_vt ret vt (Some w) = (b, Some w')"
  then show "impl (session w') = impl (session w)"
    by (auto simp: wlr_session_change_vt_def)
qed

text \<open>With logind compiled in and only the direct backend available, both are probed in
  order and the direct session is returned; with no backend available creation fails with
  \<open>NoBackendAvailable\<close>; closing a descriptor keeps \<open>impl\<close>.\<close>

theorem backend_selection_witness:
  "probed (snd (wlr_session_create True create_ok [])) = [Session_logind, Session_direct]
   \<and> fst (wlr_session_create True create_ok []) = Inr created_session
   \<and> impl created_session = impl direct_session
   \<and> list_all (\<lambda>i. impl_create create_none i = None) (impls True)
   \<and> fst (wlr_session_create True create_none []) = Inl NoBackendAvailable
   \<and> (\<exists>w'. wlr_session_close_file 5 two_cards = Inr w' \<and> impl (session w') = Session_direct)"
proof -
  note ok = backend_selection [where hs = True and env = create_ok and t = "[]"
      and w = two_cards and g = 5 and oe = "open_answers (gpu ''card0'' 0 5 False None)"
      and p = "''/dev/dri/card0''" and l = 0 and received = None and en = None
      and ret = True and vt = 1]
  note none = backend_selection [where hs = True and env = create_none and t = "[]"
      and w = two_cards and g = 5 and oe = "open_answers (gpu ''card0'' 0 5 False None)"
      and p = "''/dev/dri/card0''" and l = 0 and received = None and en = None
      and ret = True and vt = 1]
  have i: "impls True = [Session_logind, Session_direct]"
    by (rule ok [THEN conjunct1])
  have "probed (snd (wlr_session_create True create_ok [])) =
       takeWhile (\<lambda>i. impl_create create_ok i = None) (impls True)
         @ take 1 (dropWhile (\<lambda>i. impl_create create_ok i = None) (impls True))"
    by (rule ok [THEN conjunct2, THEN conjunct2, THEN conjunct1])
  with i have a: "probed (snd (wlr_session_create True create_ok []))
      = [Session_logind, Session_direct]"
    by (simp add: create_ok_def)
  have b: "fst (wlr_session_create True create_ok []) = Inr created_session"
    by (simp add: wlr_session_create_def impls_def create_ok_def created_session_def
          direct_session_def)
  have c: "impl created_session = impl direct_session"
    by (simp add: created_session_def)
  have d: "\<forall>i\<in>set (impls True). impl_create create_none i = None"
    by (simp add: create_none_def)
  have "fst (wlr_session_create True create_none []) = Inl NoBackendAvailable
        \<longleftrightarrow> (\<forall>i\<in>set (impls True). impl_create create_none i = None)"
    by (rule none [THEN conjunct2, THEN conjunct2, THEN conjunct2, THEN conjunct1])
  with d have e: "fst (wlr_session_create True create_none []) = Inl NoBackendAvailable"
    by blast
  have f: "wlr_session_close_file 5 two_cards = Inr (after_close 5 two_cards)"
    by (simp add: close_file_eq registered_fds_def two_cards_def card0_def card1_def)
  have "\<forall>w'. wlr_session_close_file 5 two_cards = Inr w' \<longrightarrow>
      impl (session w') = impl (session two_cards)"
    by (rule ok [THEN conjunct2, THEN conjunct2, THEN conjunct2, THEN conjunct2,
          THEN conjunct2, THEN conjunct2, THEN conjunct1])
  with f have "impl (session (after_close 5 two_cards)) = impl (session two_cards)"
    by blast
  then have g: "impl (session (after_close 5 two_cards)) = Session_direct"
    by (simp add: two_cards_def direct_session_def)
  from a b c d e f g show ?thesis
    by (simp add: list_all_iff)
qed

section \<open>The recorded device number\<close>

lemma dev_number_emit [simp]: "dev_number (emit e w) f = dev_number w f"
  by (simp add: dev_number_def)

lemma dev_number_open_new:
  "registers env \<Longrightarrow> dev_number (after_open env p w) (impl_open_ret env) = fstat_rdev env"
  by (auto simp: dev_number_def devices_after_open registers_def)

lemma dev_number_open_other:
  "impl_open_ret env \<noteq> f \<Longrightarrow> dev_number (after_open env p w) f = dev_number w f"
  by (simp add: dev_number_def lookup_after_open)

lemma dev_number_close_other:
  "g \<noteq> f \<Longrightarrow> wlr_session_close_file g w = Inr w' \<Longrightarrow> dev_number w' f = dev_number w f"
  by (auto simp: close_file_eq dev_number_def lookup_unlink_other split: if_splits)

lemma lookup_add_listener:
  "map_option device_dev (lookup_fd (add_listener ds g l) f) = map_option device_dev (lookup_fd ds f)"
  by (induction ds) auto

lemma dev_number_signal_add:
  "wlr_session_signal_add g l w = Inr w' \<Longrightarrow> dev_number w' f = dev_number w f"
  by (auto simp: signal_add_eq dev_number_def lookup_add_listener split: if_splits)

lemma dev_number_udev_event [simp]: "dev_number (snd (udev_event received w)) f = dev_number w f"
  by (simp add: dev_number_def)

lemma dev_number_find_gpu:
  assumes "wlr_session_find_gpu (Some cs) w = Inr (r, w')"
    and "\<forall>c\<in>set cs. candidate_fd c \<noteq> f"
  shows "dev_number w' f = dev_number w f"
proof -
  from assms(1) obtain w1 where l: "find_gpu_loop cs (- 1) w = Inr (r, w1)"
    and w': "w' = emit Udev_enumerate_unref w1"
    by (auto simp: find_gpu_eq)
  have "(- 1 < (0::int) \<or> - 1 \<noteq> f) \<or> (\<forall>c\<in>set cs. \<not> (is_boot_vga c \<and> kms_capable c))"
    by simp
  from find_gpu_loop_frame [OF l assms(2) this]
  have "lookup_fd (devices (session w1)) f = lookup_fd (devices (session w)) f" by blast
  with w' show ?thesis by (simp add: dev_number_def)
qed

text \<open>
  C9.  The entry a successful \<^verbatim>\<open>wlr_session_open_file\<close> creates records the \<^verbatim>\<open>st_rdev\<close> that
  \<^verbatim>\<open>fstat\<close> returned for the descriptor, whatever the path string is.  The number recorded
  for a descriptor \<open>f\<close> is not changed by opening another descriptor, by closing another
  descriptor, by \<^verbatim>\<open>wlr_session_signal_add\<close>, by the hotplug callback, or by GPU discovery
  (whose probes open descriptors other than \<open>f\<close>, which is still open).
\<close>

theorem device_number_from_fstat_and_stable:
  "(registers env \<longrightarrow>
      (\<forall>p. dev_number (snd (wlr_session_open_file env p w)) (impl_open_ret env) = fstat_rdev env))
   \<and> (impl_open_ret env \<noteq> f \<longrightarrow>
        dev_number (snd (wlr_session_open_file env p w)) f = dev_number w f)
   \<and> (g \<noteq> f \<longrightarrow>
        (\<forall>w'. wlr_session_close_file g w = Inr w' \<longrightarrow> dev_number w' f = dev_number w f))
   \<and> (\<forall>w'. wlr_session_signal_add g l w = Inr w' \<longrightarrow> dev_number w' f = dev_number w f)
   \<and> dev_number (snd (udev_event received w)) f = dev_number w f
   \<and> ((\<forall>c\<in>set cs. candidate_fd c \<noteq> f) \<longrightarrow>
        (\<forall>r w'. wlr_session_find_gpu (Some cs) w = Inr (r, w') \<longrightarrow>
           dev_number w' f = dev_number w f))"
proof (intro conjI allI impI)
  fix p
  assume "registers env"
  then show "dev_number (snd (wlr_session_open_file env p w)) (impl_open_ret env) = fstat_rdev env"
    using dev_number_open_new [of env p w] by (simp add: after_open_def)
next
  assume "impl_open_ret env \<noteq> f"
  then show "dev_number (snd (wlr_session_open_file env p w)) f = dev_number w f"
    using dev_number_open_other [of env f p w] by (simp add: after_open_def)
next
  fix w'
  assume "g \<noteq> f" and "wlr_session_close_file g w = Inr w'"
  then show "dev_number w' f = dev_number w f" by (rule dev_number_close_other)
next
  fix w'
  assume "wlr_session_signal_add g l w = Inr w'"
  then show "dev_number w' f = dev_number w f" by (rule dev_number_signal_add)
next
  show "dev_number (snd (udev_event received w)) f = dev_number w f" by simp
next
  fix r w'
  assume "\<forall>c\<in>set cs. candidate_fd c \<noteq> f" and "wlr_session_find_gpu (Some cs) w = Inr (r, w')"
  then show "dev_number w' f = dev_number w f" by (simp add: dev_number_find_gpu)
qed

text \<open>The definitions of the world with two registered cards.\<close>

lemmas world_defs = two_cards_def card0_def card1_def direct_session_def

text \<open>Cards 5 and 6 are registered.  Opening \<^verbatim>\<open>card2\<close> under either of two paths records
  226:2 for descriptor 7; descriptor 5 keeps 226:0 through that open, through the close of
  descriptor 6 and through a discovery that opens descriptors 7 and 8.\<close>

theorem device_number_from_fstat_and_stable_witness:
  "registers open_card2
   \<and> dev_number (snd (wlr_session_open_file open_card2 ''/dev/dri/card2'' two_cards)) 7 = Some 57858
   \<and> dev_number (snd (wlr_session_open_file open_card2 ''/dev/dri/by-path/x'' two_cards)) 7
       = Some 57858
   \<and> dev_number two_cards 5 = Some 57856
   \<and> dev_number (snd (wlr_session_open_file open_card2 ''/dev/dri/card2'' two_cards)) 5
       = Some 57856
   \<and> wlr_session_close_file 6 two_cards = Inr (after_close 6 two_cards)
   \<and> dev_number (after_close 6 two_cards) 5 = Some 57856
   \<and> list_all (\<lambda>c. candidate_fd c \<noteq> 5) two_gpus
   \<and> (\<exists>w'. wlr_session_find_gpu (Some two_gpus) two_cards = Inr (8, w')
         \<and> dev_number w' 5 = Some 57856)"
proof -
  note T = device_number_from_fstat_and_stable [where env = open_card2 and w = two_cards
      and f = 5 and p = "''/dev/dri/card2''" and g = 6 and l = 0 and received = None
      and cs = two_gpus]
  have r: "registers open_card2"
    by (simp add: registers_def open_card2_def)
  have "registers open_card2 \<longrightarrow> (\<forall>p. dev_number (snd (wlr_session_open_file open_card2 p
      two_cards)) (impl_open_ret open_card2) = fstat_rdev open_card2)"
    by (rule T [THEN conjunct1])
  with r have a: "\<forall>p. dev_number (snd (wlr_session_open_file open_card2 p two_cards)) 7
      = Some 57858"
    by (simp add: open_card2_def)
  have n: "dev_number two_cards 5 = Some 57856"
    by (simp add: dev_number_def world_defs)
  have "impl_open_ret open_card2 \<noteq> 5 \<longrightarrow>
      dev_number (snd (wlr_session_open_file open_card2 ''/dev/dri/card2'' two_cards)) 5
        = dev_number two_cards 5"
    by (rule T [THEN conjunct2, THEN conjunct1])
  with n have b: "dev_number (snd (wlr_session_open_file open_card2 ''/dev/dri/card2''
      two_cards)) 5 = Some 57856"
    by (simp add: open_card2_def)
  have c: "wlr_session_close_file 6 two_cards = Inr (after_close 6 two_cards)"
    by (simp add: close_file_eq registered_fds_def world_defs)
  have "(6::int) \<noteq> 5 \<longrightarrow> (\<forall>w'. wlr_session_close_file 6 two_cards = Inr w' \<longrightarrow>
      dev_number w' 5 = dev_number two_cards 5)"
    by (rule T [THEN conjunct2, THEN conjunct2, THEN conjunct1])
  with c n have d: "dev_number (after_close 6 two_cards) 5 = Some 57856"
    by simp
  have e: "\<forall>c\<in>set two_gpus. candidate_fd c \<noteq> 5"
    by (simp add: two_gpus_def gpu_def candidate_fd_def)
  have o: "\<forall>c\<in>set two_gpus. open_completes (open_answers c)"
    by (simp add: two_gpus_def gpu_def open_completes_def registers_def)
  have "- 1 < (0::int) \<or> - 1 \<in> registered_fds two_cards" by simp
  from find_gpu_loop_returns [OF o this] obtain r w1 where
    l: "find_gpu_loop two_gpus (- 1) two_cards = Inr (r, w1)" by blast
  then have "r = choice_from (- 1) two_gpus" by (rule find_gpu_loop_result)
  then have "r = 8"
    by (simp add: choice_from_def kms_capable_def probe_ok_def usable_def candidate_fd_def
          is_boot_vga_def two_gpus_def gpu_def kms_res_def)
  with l have run: "wlr_session_find_gpu (Some two_gpus) two_cards
      = Inr (8, emit Udev_enumerate_unref w1)"
    by (simp add: find_gpu_eq)
  have "(\<forall>c\<in>set two_gpus. candidate_fd c \<noteq> 5) \<longrightarrow>
        (\<forall>r w'. wlr_session_find_gpu (Some two_gpus) two_cards = Inr (r, w') \<longrightarrow>
           dev_number w' 5 = dev_number two_cards 5)"
    by (rule T [THEN conjunct2, THEN conjunct2, THEN conjunct2, THEN conjunct2, THEN conjunct2])
  from this e have "\<forall>r w'. wlr_session_find_gpu (Some two_gpus) two_cards = Inr (r, w') \<longrightarrow>
           dev_number w' 5 = dev_number two_cards 5" by (rule mp)
  with run n have "dev_number (emit Udev_enumerate_unref w1) 5 = Some 57856"
    by simp
  with run have g: "\<exists>w'. wlr_session_find_gpu (Some two_gpus) two_cards = Inr (8, w')
         \<and> dev_number w' 5 = Some 57856" by blast
  from r a n b c d e g show ?thesis
    by (simp add: list_all_iff)
qed

section \<open>The accepted descriptor during discovery\<close>

lemma find_Some_holds: "find P xs = Some x \<Longrightarrow> P x \<and> x \<in> set xs"
  by (auto simp: find_Some_iff)

lemma choice_from_accepted: "0 \<le> fd0 \<Longrightarrow> 0 \<le> choice_from fd0 cs"
  by (auto simp: choice_from_def split: option.splits dest: find_Some_holds kms_capable_fd)

lemma choice_from_kept:
  "0 \<le> fd0 \<Longrightarrow> \<forall>c\<in>set cs. \<not> (is_boot_vga c \<and> kms_capable c) \<Longrightarrow> choice_from fd0 cs = fd0"
  by (auto simp: choice_from_def find_None_iff split: option.splits dest: find_Some_holds)

lemma gpu_choice_found: "\<exists>c\<in>set cs. kms_capable c \<Longrightarrow> 0 \<le> gpu_choice cs"
  by (auto simp: gpu_choice_def find_None_iff split: option.splits
        dest: find_Some_holds kms_capable_fd)

lemma device_is_kms_replaces:
  assumes "probe_ok env res (Some p)" and "0 \<le> prev" and "prev \<in> registered_fds w"
  shows "\<exists>wk. device_is_kms env res (Some p) prev w = Inr (True, impl_open_ret env, wk)
           \<and> trace wk = trace w @ open_events env p
               @ [Drm_mode_get_resources (impl_open_ret env), Impl_close prev, Free_device True,
                  Drm_mode_free_resources]"
proof -
  from assms(1) have u: "usable res" and o: "0 \<le> impl_open_ret env"
    by (simp_all add: probe_ok_def)
  from assms(3) have "prev \<in> registered_fds (after_open env p w)"
    by (simp add: registered_after_open)
  with u o assms(2)
  have "device_is_kms env res (Some p) prev w = Inr (True, impl_open_ret env,
      emit Drm_mode_free_resources (after_close prev (queried env res p w)))"
    by (simp add: device_is_kms_eq)
  moreover from u have "trace (emit Drm_mode_free_resources (after_close prev (queried env res p w)))
      = trace w @ open_events env p
               @ [Drm_mode_get_resources (impl_open_ret env), Impl_close prev, Free_device True,
                  Drm_mode_free_resources]"
    by (simp add: trace_queried)
  ultimately show ?thesis by blast
qed

text \<open>
  C10.  \<open>prev\<close> is the descriptor accepted so far.  When the probe of a later candidate
  fails (no device node, the open fails, the resource query fails or a count is not
  positive), \<^verbatim>\<open>device_is_kms\<close> returns false, leaves \<open>prev\<close> in \<^verbatim>\<open>*fd_out\<close>, does not call
  the backend's close for \<open>prev\<close> and leaves its registry entry as it was; nor is \<open>prev\<close>
  closed when the probe ends in the assertion.  \<open>prev\<close> is closed only by a probe that
  succeeds, after the open and the resource query of the new descriptor.  Through the rest
  of the enumeration, as long as no boot VGA candidate passes its probe, \<open>prev\<close> stays open,
  registered and the result; and once a descriptor is accepted, discovery does not
  return a negative value.  (The environment does not hand out a descriptor number that
  is still open: the descriptors the probes open differ from \<open>prev\<close>.)
\<close>

theorem accepted_fd_kept_until_replaced:
  "(impl_open_ret env \<noteq> prev \<and> \<not> probe_ok env res path \<longrightarrow>
      (\<forall>ok got wk. device_is_kms env res path prev w = Inr (ok, got, wk) \<longrightarrow>
          \<not> ok \<and> got = prev
          \<and> lookup_fd (devices (session wk)) prev = lookup_fd (devices (session w)) prev
          \<and> (\<exists>es. trace wk = trace w @ es \<and> Impl_close prev \<notin> set es)))
   \<and> (\<forall>wa. device_is_kms env res path prev w = Inl (Assert_failed wa) \<longrightarrow>
        (\<exists>es. trace wa = trace w @ es \<and> Impl_close prev \<notin> set es))
   \<and> (probe_ok env res (Some p) \<and> 0 \<le> prev \<and> prev \<in> registered_fds w \<longrightarrow>
        (\<exists>wk. device_is_kms env res (Some p) prev w = Inr (True, impl_open_ret env, wk)
           \<and> trace wk = trace w @ open_events env p
               @ [Drm_mode_get_resources (impl_open_ret env), Impl_close prev, Free_device True,
                  Drm_mode_free_resources]))
   \<and> (0 \<le> prev \<and> (\<forall>c\<in>set cs. candidate_fd c \<noteq> prev)
        \<and> (\<forall>c\<in>set cs. \<not> (is_boot_vga c \<and> kms_capable c)) \<longrightarrow>
        (\<forall>r w'. find_gpu_loop cs prev w = Inr (r, w') \<longrightarrow>
           r = prev
           \<and> lookup_fd (devices (session w')) prev = lookup_fd (devices (session w)) prev
           \<and> (\<exists>es. trace w' = trace w @ es \<and> Impl_close prev \<notin> set es)))
   \<and> (0 \<le> prev \<longrightarrow> (\<forall>r w'. find_gpu_loop cs prev w = Inr (r, w') \<longrightarrow> 0 \<le> r))
   \<and> ((\<exists>c\<in>set cs. kms_capable c) \<longrightarrow>
        (\<forall>r w'. wlr_session_find_gpu (Some cs) w = Inr (r, w') \<longrightarrow> 0 \<le> r))"
proof -
  have A: "impl_open_ret env \<noteq> prev \<and> \<not> probe_ok env res path \<longrightarrow>
      (\<forall>ok got wk. device_is_kms env res path prev w = Inr (ok, got, wk) \<longrightarrow>
          \<not> ok \<and> got = prev
          \<and> lookup_fd (devices (session wk)) prev = lookup_fd (devices (session w)) prev
          \<and> (\<exists>es. trace wk = trace w @ es \<and> Impl_close prev \<notin> set es))"
  proof (intro impI allI)
    fix ok got wk
    assume a: "impl_open_ret env \<noteq> prev \<and> \<not> probe_ok env res path"
      and k: "device_is_kms env res path prev w = Inr (ok, got, wk)"
    from device_is_kms_result [OF k] a have no: "\<not> ok" and g: "got = prev" by simp_all
    from a have new: "impl_open_ret env \<noteq> prev" by simp
    from no have "ok \<longrightarrow> prev < 0 \<or> prev \<noteq> prev" by simp
    from device_is_kms_frame [OF k new this] no g
    show "\<not> ok \<and> got = prev
          \<and> lookup_fd (devices (session wk)) prev = lookup_fd (devices (session w)) prev
          \<and> (\<exists>es. trace wk = trace w @ es \<and> Impl_close prev \<notin> set es)"
      by simp
  qed
  have B: "\<forall>wa. device_is_kms env res path prev w = Inl (Assert_failed wa) \<longrightarrow>
        (\<exists>es. trace wa = trace w @ es \<and> Impl_close prev \<notin> set es)"
  proof (intro impI allI)
    fix wa
    assume "device_is_kms env res path prev w = Inl (Assert_failed wa)"
    from device_is_kms_abort_trace [OF this]
    show "\<exists>es. trace wa = trace w @ es \<and> Impl_close prev \<notin> set es" by blast
  qed
  have C: "probe_ok env res (Some p) \<and> 0 \<le> prev \<and> prev \<in> registered_fds w \<longrightarrow>
        (\<exists>wk. device_is_kms env res (Some p) prev w = Inr (True, impl_open_ret env, wk)
           \<and> trace wk = trace w @ open_events env p
               @ [Drm_mode_get_resources (impl_open_ret env), Impl_close prev, Free_device True,
                  Drm_mode_free_resources])"
    by (simp add: device_is_kms_replaces)
  have D: "0 \<le> prev \<and> (\<forall>c\<in>set cs. candidate_fd c \<noteq> prev)
        \<and> (\<forall>c\<in>set cs. \<not> (is_boot_vga c \<and> kms_capable c)) \<longrightarrow>
        (\<forall>r w'. find_gpu_loop cs prev w = Inr (r, w') \<longrightarrow>
           r = prev
           \<and> lookup_fd (devices (session w')) prev = lookup_fd (devices (session w)) prev
           \<and> (\<exists>es. trace w' = trace w @ es \<and> Impl_close prev \<notin> set es))"
  proof (intro impI allI)
    fix r w'
    assume a: "0 \<le> prev \<and> (\<forall>c\<in>set cs. candidate_fd c \<noteq> prev)
        \<and> (\<forall>c\<in>set cs. \<not> (is_boot_vga c \<and> kms_capable c))"
      and l: "find_gpu_loop cs prev w = Inr (r, w')"
    from l have "r = choice_from prev cs" by (rule find_gpu_loop_result)
    with a have r: "r = prev" by (simp add: choice_from_kept)
    from a have n: "\<forall>c\<in>set cs. candidate_fd c \<noteq> prev"
      and i: "(prev < 0 \<or> prev \<noteq> prev) \<or> (\<forall>c\<in>set cs. \<not> (is_boot_vga c \<and> kms_capable c))"
      by simp_all
    from find_gpu_loop_frame [OF l n i] r
    show "r = prev
           \<and> lookup_fd (devices (session w')) prev = lookup_fd (devices (session w)) prev
           \<and> (\<exists>es. trace w' = trace w @ es \<and> Impl_close prev \<notin> set es)"
      by simp
  qed
  have E: "0 \<le> prev \<longrightarrow> (\<forall>r w'. find_gpu_loop cs prev w = Inr (r, w') \<longrightarrow> 0 \<le> r)"
  proof (intro impI allI)
    fix r w'
    assume "0 \<le> prev" and "find_gpu_loop cs prev w = Inr (r, w')"
    then show "0 \<le> r"
      using find_gpu_loop_result [of cs prev w r w'] by (simp add: choice_from_accepted)
  qed
  have F: "(\<exists>c\<in>set cs. kms_capable c) \<longrightarrow>
        (\<forall>r w'. wlr_session_find_gpu (Some cs) w = Inr (r, w') \<longrightarrow> 0 \<le> r)"
  proof (intro impI allI)
    fix r w'
    assume c: "\<exists>c\<in>set cs. kms_capable c" and "wlr_session_find_gpu (Some cs) w = Inr (r, w')"
    then obtain w1 where "find_gpu_loop cs (- 1) w = Inr (r, w1)"
      by (auto simp: find_gpu_eq)
    then have "r = gpu_choice cs"
      using find_gpu_loop_result [of cs "- 1" w r w1] by (simp add: gpu_choice_from)
    with c show "0 \<le> r" by (simp add: gpu_choice_found)
  qed
  show ?thesis by (intro conjI A B C D E F)
qed

text \<open>Card 5 is accepted and cards 5 and 6 are registered.  The probe of a boot VGA card
  whose resource query fails opens and closes descriptor 7 and leaves 5 alone; a probe
  that passes closes 5 after opening and querying 7; the loop over the failing card
  returns 5; discovery over three capable cards returns 6.\<close>

theorem accepted_fd_kept_until_replaced_witness:
  "impl_open_ret (open_answers boot_without_resources) \<noteq> 5
   \<and> \<not> probe_ok (open_answers boot_without_resources) None (Some ''/dev/dri/card2'')
   \<and> device_is_kms (open_answers boot_without_resources) None (Some ''/dev/dri/card2'') 5 two_cards
       = Inr (False, 5, after_failed_probe)
   \<and> lookup_fd (devices (session after_failed_probe)) 5 = Some card0
   \<and> Impl_close 5 \<notin> set (trace after_failed_probe)
   \<and> probe_ok open_card2 (Some kms_res) (Some ''/dev/dri/card2'')
   \<and> 5 \<in> registered_fds two_cards
   \<and> (\<exists>wk. device_is_kms open_card2 (Some kms_res) (Some ''/dev/dri/card2'') 5 two_cards
               = Inr (True, 7, wk)
         \<and> trace wk = [Impl_open ''/dev/dri/card2'' 7, Drm_mode_get_resources 7, Impl_close 5,
                        Free_device True, Drm_mode_free_resources])
   \<and> find_gpu_loop [boot_without_resources] 5 two_cards
       = Inr (5, emit (Udev_candidate_unref 2) after_failed_probe)
   \<and> list_ex kms_capable three_gpus
   \<and> (\<exists>w'. wlr_session_find_gpu (Some three_gpus) fresh = Inr (6, w'))"
proof -
  note T = accepted_fd_kept_until_replaced [where env = "open_answers boot_without_resources"
      and res = None and path = "Some ''/dev/dri/card2''" and prev = 5 and w = two_cards
      and p = "''/dev/dri/card2''" and cs = "[boot_without_resources]"]
  note U = accepted_fd_kept_until_replaced [where env = open_card2
      and res = "Some kms_res" and path = "Some ''/dev/dri/card2''" and prev = 5 and w = two_cards
      and p = "''/dev/dri/card2''" and cs = "[boot_without_resources]"]
  note V = accepted_fd_kept_until_replaced [where env = open_card2
      and res = "Some kms_res" and path = "Some ''/dev/dri/card2''" and prev = 5 and w = fresh
      and p = "''/dev/dri/card2''" and cs = three_gpus]
  have h1: "impl_open_ret (open_answers boot_without_resources) \<noteq> 5
      \<and> \<not> probe_ok (open_answers boot_without_resources) None (Some ''/dev/dri/card2'')"
    by (simp add: boot_without_resources_def gpu_def probe_ok_def usable_def)
  have k: "device_is_kms (open_answers boot_without_resources) None (Some ''/dev/dri/card2'') 5
      two_cards = Inr (False, 5, after_failed_probe)"
    by (simp add: run_defs world_defs boot_without_resources_def gpu_def after_failed_probe_def)
  from T [THEN conjunct1] h1 k
  have a: "lookup_fd (devices (session after_failed_probe)) 5
        = lookup_fd (devices (session two_cards)) 5
      \<and> (\<exists>es. trace after_failed_probe = trace two_cards @ es \<and> Impl_close 5 \<notin> set es)"
    by blast
  then have a1: "lookup_fd (devices (session after_failed_probe)) 5 = Some card0"
    by (simp add: world_defs)
  from a have a2: "Impl_close 5 \<notin> set (trace after_failed_probe)"
    by (auto simp: two_cards_def)
  have h2: "probe_ok open_card2 (Some kms_res) (Some ''/dev/dri/card2'') \<and> (0::int) \<le> 5
      \<and> 5 \<in> registered_fds two_cards"
    by (simp add: probe_ok_def usable_def open_card2_def kms_res_def registered_fds_def
          world_defs)
  from U [THEN conjunct2, THEN conjunct2, THEN conjunct1] h2
  have "\<exists>wk. device_is_kms open_card2 (Some kms_res) (Some ''/dev/dri/card2'') 5 two_cards
               = Inr (True, impl_open_ret open_card2, wk)
         \<and> trace wk = trace two_cards @ open_events open_card2 ''/dev/dri/card2''
               @ [Drm_mode_get_resources (impl_open_ret open_card2), Impl_close 5,
                  Free_device True, Drm_mode_free_resources]"
    by blast
  then have b: "\<exists>wk. device_is_kms open_card2 (Some kms_res) (Some ''/dev/dri/card2'') 5 two_cards
               = Inr (True, 7, wk)
         \<and> trace wk = [Impl_open ''/dev/dri/card2'' 7, Drm_mode_get_resources 7, Impl_close 5,
                        Free_device True, Drm_mode_free_resources]"
    by (simp add: open_card2_def open_events_def registers_def two_cards_def)
  have l: "find_gpu_loop [boot_without_resources] 5 two_cards
       = Inr (5, emit (Udev_candidate_unref 2) after_failed_probe)"
    using k by (simp add: boot_without_resources_def gpu_def is_boot_vga_def)
  have h3: "(0::int) \<le> 5 \<and> (\<forall>c\<in>set [boot_without_resources]. candidate_fd c \<noteq> 5)
      \<and> (\<forall>c\<in>set [boot_without_resources]. \<not> (is_boot_vga c \<and> kms_capable c))"
    by (simp add: boot_without_resources_def gpu_def candidate_fd_def kms_capable_def
          probe_ok_def usable_def)
  from T [THEN conjunct2, THEN conjunct2, THEN conjunct2, THEN conjunct1] h3 l
  have "\<exists>es. trace (emit (Udev_candidate_unref 2) after_failed_probe) = trace two_cards @ es
      \<and> Impl_close 5 \<notin> set es"
    by blast
  have h4: "\<exists>c\<in>set three_gpus. kms_capable c"
    by (simp add: three_gpus_def gpu_def kms_capable_def probe_ok_def usable_def kms_res_def)
  have o: "\<forall>c\<in>set three_gpus. open_completes (open_answers c)"
    by (simp add: three_gpus_def gpu_def open_completes_def registers_def)
  have "- 1 < (0::int) \<or> - 1 \<in> registered_fds fresh" by simp
  from find_gpu_loop_returns [OF o this] obtain r w1 where
    g: "find_gpu_loop three_gpus (- 1) fresh = Inr (r, w1)" by blast
  then have "r = choice_from (- 1) three_gpus" by (rule find_gpu_loop_result)
  then have "r = 6"
    by (simp add: choice_from_def kms_capable_def probe_ok_def usable_def candidate_fd_def
          is_boot_vga_def three_gpus_def gpu_def kms_res_def)
  with g have run: "wlr_session_find_gpu (Some three_gpus) fresh
      = Inr (6, emit Udev_enumerate_unref w1)"
    by (simp add: find_gpu_eq)
  from V [THEN conjunct2, THEN conjunct2, THEN conjunct2, THEN conjunct2, THEN conjunct2] h4 run
  have "(0::int) \<le> 6" by blast
  from h1 k a1 a2 h2 b l h4 run show ?thesis
    by (simp add: list_ex_iff)
qed

section \<open>Rollback of a failed session creation\<close>

text \<open>
  C2.  A backend is selected and \<^verbatim>\<open>udev_new\<close> returns context 1.  When the monitor cannot
  be created, \<^verbatim>\<open>wlr_session_create\<close> releases the context at the label \<^verbatim>\<open>error_udev\<close> and then
  calls \<^verbatim>\<open>wlr_session_destroy\<close>, which removes an event source that was never created,
  releases the absent monitor and releases context 1 a second time.  When the event
  source cannot be registered, monitor 2 and context 1 are each released twice.
\<close>

theorem create_rollback_releases_twice:
  "wlr_session_create True create_no_monitor [] =
     (Inl MonitorInitFailed,
      [Impl_create Session_logind, Impl_create Session_direct, Udev_new (Some 1),
       Udev_monitor_new None, Wlr_log L_ERROR ''Failed to create udev monitor'',
       Udev_unref (Some 1),
       Wl_event_source_remove None, Udev_monitor_unref None, Udev_unref (Some 1),
       Impl_destroy Session_direct])
   \<and> wlr_session_create True create_no_event_source [] =
     (Inl EventSourceInitFailed,
      [Impl_create Session_logind, Impl_create Session_direct, Udev_new (Some 1),
       Udev_monitor_new (Some 2), Udev_monitor_enable (Some 2), Wl_event_loop_add_fd None,
       Wlr_log L_ERROR ''Failed to create udev event source'',
       Udev_monitor_unref (Some 2), Udev_unref (Some 1),
       Wl_event_source_remove None, Udev_monitor_unref (Some 2), Udev_unref (Some 1),
       Impl_destroy Session_direct])
   \<and> count_list (snd (wlr_session_create True create_no_monitor [])) (Udev_unref (Some 1)) = 2
   \<and> count_list (snd (wlr_session_create True create_no_event_source []))
        (Udev_monitor_unref (Some 2)) = 2"
  by (simp add: wlr_session_create_def wlr_session_destroy_def impls_def create_no_monitor_def
        create_no_event_source_def create_ok_def direct_session_def)

section \<open>The registry along a sequence of calls\<close>

text \<open>
  C3.  On a freshly created session, one \<^verbatim>\<open>wlr_session_open_file\<close> call in which the backend
  returns descriptor 5 and \<^verbatim>\<open>fstat\<close> fails returns 5 and leaves the registry empty: one
  descriptor was handed out, none was closed, and the registry has no entry.  Closing
  that descriptor through \<^verbatim>\<open>wlr_session_close_file\<close> then reaches the assertion.
\<close>

theorem registry_misses_descriptor_after_open_error:
  "fst (wlr_session_create True create_ok []) = Inr (session fresh)
   \<and> devices (session fresh) = []
   \<and> run_calls [Open_file ''/dev/dri/card0'' stat_fails] fresh =
       Inr ([5], fresh\<lparr>trace := [Impl_open ''/dev/dri/card0'' 5,
                                  Wlr_log L_ERROR ''Stat failed'', Free_device True]\<rparr>)
   \<and> run_calls [Open_file ''/dev/dri/card0'' stat_fails, Close_file 5] fresh =
       Inl (Assert_failed (fresh\<lparr>trace := [Impl_open ''/dev/dri/card0'' 5,
                                  Wlr_log L_ERROR ''Stat failed'', Free_device True,
                                  not_opened_msg]\<rparr>))"
  by (simp add: wlr_session_create_def impls_def create_ok_def fresh_def created_session_def
        direct_session_def stat_fails_def wlr_session_open_file_def wlr_session_close_file_def
        find_device_def emit_def not_opened_msg_def)

section \<open>The probe on the error path of the open\<close>

text \<open>
  C6.  The backend opens the node as descriptor 5 and \<^verbatim>\<open>malloc\<close> fails in
  \<^verbatim>\<open>wlr_session_open_file\<close>, which returns 5 without a registry entry.  If the resource
  query fails too, \<^verbatim>\<open>device_is_kms\<close> goes to close descriptor 5 through the session and
  reaches the assertion of \<^verbatim>\<open>find_device\<close>: the backend's close is never called.  If the
  resources are usable, descriptor 5 is accepted although the registry does not hold it.
\<close>

theorem probe_aborts_with_descriptor_open:
  "device_is_kms alloc_fails None (Some ''/dev/dri/card0'') (- 1) fresh =
     Inl (Assert_failed (fresh\<lparr>trace := [Impl_open ''/dev/dri/card0'' 5,
                                  Wlr_log L_ERROR ''Allocation failed'', Free_device False,
                                  Drm_mode_get_resources 5, not_opened_msg]\<rparr>))
   \<and> device_is_kms alloc_fails (Some kms_res) (Some ''/dev/dri/card0'') (- 1) fresh =
     Inr (True, 5, fresh\<lparr>trace := [Impl_open ''/dev/dri/card0'' 5,
                                  Wlr_log L_ERROR ''Allocation failed'', Free_device False,
                                  Drm_mode_get_resources 5, Drm_mode_free_resources]\<rparr>)
   \<and> 5 \<notin> registered_fds fresh"
  by (simp add: device_is_kms_def wlr_session_open_file_def wlr_session_close_file_def
        find_device_def emit_def not_opened_msg_def alloc_fails_def kms_res_def fresh_def
        created_session_def direct_session_def registered_fds_def)

section \<open>The registry when every open completes\<close>

text \<open>Along a sequence in which every open completes, the registry grows by one with each
  open that returns a descriptor and shrinks by one with each close, and it holds only
  descriptors that were there before or that an open of the sequence returned.\<close>

lemma length_unlink:
  "g \<in> device_fd ` set ds \<Longrightarrow> Suc (length (unlink_fd ds g)) = length ds"
  by (induction ds) auto

lemma set_unlink: "set (unlink_fd ds g) \<subseteq> set ds"
  by (induction ds) auto

lemma run_calls_registry:
  assumes "run_calls cs w = Inr (rs, w')" and "opens_complete cs"
  shows "length (devices (session w')) + closes cs =
           length (devices (session w)) + length (filter (\<lambda>r. 0 \<le> r) rs)
         \<and> registered_fds w' \<subseteq> registered_fds w \<union> {r \<in> set rs. 0 \<le> r}"
  using assms
proof (induction cs w arbitrary: rs rule: run_calls.induct)
  case (1 w)
  then show ?case by simp
next
  case (2 p env cs w)
  from "2.prems"(1) obtain rs1 where r: "run_calls cs (after_open env p w) = Inr (rs1, w')"
    and rs: "rs = impl_open_ret env # rs1"
    by (auto simp: open_file_eq split: sum.splits)
  from "2.prems"(2) have oc: "open_completes env" and rest: "opens_complete cs" by simp_all
  have "(impl_open_ret env, after_open env p w) = wlr_session_open_file env p w"
    by (simp add: open_file_eq)
  from "2.IH" [OF this r rest]
  have ih: "length (devices (session w')) + closes cs =
      length (devices (session (after_open env p w))) + length (filter (\<lambda>r. 0 \<le> r) rs1)"
    and sub: "registered_fds w' \<subseteq> registered_fds (after_open env p w) \<union> {r \<in> set rs1. 0 \<le> r}"
    by simp_all
  show ?case
  proof (cases "registers env")
    case True
    then have "0 \<le> impl_open_ret env" by (simp add: registers_def)
    with True ih sub rs show ?thesis
      by (auto simp: devices_after_open registered_after_open)
  next
    case False
    with oc have "impl_open_ret env < 0" by (simp add: open_completes_def)
    with False ih sub rs show ?thesis
      by (auto simp: devices_after_open registered_after_open)
  qed
next
  case (3 f cs w)
  from "3.prems"(1) have m: "f \<in> registered_fds w"
    and r: "run_calls cs (after_close f w) = Inr (rs, w')"
    by (auto simp: close_file_eq split: if_splits)
  from m have c: "wlr_session_close_file f w = Inr (after_close f w)"
    by (simp add: close_file_eq)
  from "3.prems"(2) have rest: "opens_complete cs" by simp
  from "3.IH" [OF c r rest]
  have ih: "length (devices (session w')) + closes cs =
      length (devices (session (after_close f w))) + length (filter (\<lambda>r. 0 \<le> r) rs)"
    and sub: "registered_fds w' \<subseteq> registered_fds (after_close f w) \<union> {r \<in> set rs. 0 \<le> r}"
    by simp_all
  from m have "Suc (length (devices (session (after_close f w)))) = length (devices (session w))"
    by (simp add: length_unlink registered_fds_def)
  moreover have "registered_fds (after_close f w) \<subseteq> registered_fds w"
    using set_unlink [of "devices (session w)" f] by (auto simp: registered_fds_def)
  ultimately show ?case using ih sub by auto
qed

text \<open>Along a sequence in which, moreover, the backend hands out no descriptor that is still
  registered, no two entries of the registry hold the same descriptor.\<close>

lemma distinct_unlink:
  "distinct (map device_fd ds) \<Longrightarrow> distinct (map device_fd (unlink_fd ds g))"
proof (induction ds)
  case Nil
  then show ?case by simp
next
  case (Cons d ds)
  then show ?case
    using set_unlink [of ds g] by auto
qed

lemma run_calls_distinct:
  assumes "run_calls cs w = Inr (rs, w')" and "fresh_opens cs w"
    and "distinct (map device_fd (devices (session w)))"
  shows "distinct (map device_fd (devices (session w')))"
  using assms
proof (induction cs w arbitrary: rs rule: run_calls.induct)
  case (1 w)
  then show ?case by simp
next
  case (2 p env cs w)
  from "2.prems"(1) obtain rs1 where r: "run_calls cs (after_open env p w) = Inr (rs1, w')"
    by (auto simp: open_file_eq split: sum.splits)
  from "2.prems"(2) have new: "impl_open_ret env \<notin> registered_fds w"
    and rest: "fresh_opens cs (after_open env p w)" by simp_all
  have e: "(impl_open_ret env, after_open env p w) = wlr_session_open_file env p w"
    by (simp add: open_file_eq)
  from new "2.prems"(3) have "distinct (map device_fd (devices (session (after_open env p w))))"
    by (simp add: devices_after_open registered_fds_def)
  from "2.IH" [OF e r rest this] show ?case .
next
  case (3 f cs w)
  from "3.prems"(1) have m: "f \<in> registered_fds w"
    and r: "run_calls cs (after_close f w) = Inr (rs, w')"
    by (auto simp: close_file_eq split: if_splits)
  from m have c: "wlr_session_close_file f w = Inr (after_close f w)"
    by (simp add: close_file_eq)
  with "3.prems"(2) have rest: "fresh_opens cs (after_close f w)" by simp
  from "3.prems"(3) have "distinct (map device_fd (devices (session (after_close f w))))"
    by (simp add: distinct_unlink)
  from "3.IH" [OF c r rest this] show ?case .
qed

end
